theory Spec2Isabelle
  imports Complex_Main "HOL-Library.Log_Nat"
begin

section \<open>Data model (prisma/migrations/20250422124939\_init/migration.sql)\<close>

text \<open>
  The relational store is embedded as a record of tables, each table a list of rows in
  insertion order. The generated primary keys are UUIDs (the routes validate them as
  such) and are abstracted to natural numbers. A \<open>text_id\<close> is any value of a TEXT
  identifier: a UUID, or some other text such as the subject id that the identity
  provider gives a user. TIMESTAMP(3) columns are integers (milliseconds), INTEGER
  columns are integers that a write must keep within 32 bits (\<open>int4\<close>), and the DOUBLE
  PRECISION column \<open>cost\<close> is a rational. The bookkeeping columns \<open>createdAt\<close> and
  \<open>updatedAt\<close> are maintained by the ORM, never read by a route, and are left out.
\<close>

type_synonym ident = nat
type_synonym timestamp = int

datatype text_id = Uuid ident | Other string

fun isUUID :: "text_id \<Rightarrow> bool" where
  "isUUID (Uuid n) = True"
| "isUUID (Other t) = False"

definition int4 :: "int \<Rightarrow> bool" where
  "int4 n \<longleftrightarrow> - 2147483648 \<le> n \<and> n \<le> 2147483647"

datatype role = ADMIN | DOCTOR | RECEPTIONIST | INVENTORY_MANAGER
datatype gender = MALE | FEMALE | OTHER
datatype appointment_status = SCHEDULED | IN_QUEUE | IN_PROGRESS | COMPLETED | CANCELLED
datatype appointment_type = GENERAL | FOLLOW_UP | SPECIALIST | EMERGENCY
datatype bed_status = AVAILABLE | OCCUPIED | MAINTENANCE
datatype ward_type = WARD_GENERAL | WARD_ICU | WARD_EMERGENCY | WARD_PEDIATRIC
  | WARD_MATERNITY | WARD_PSYCHIATRIC
datatype admission_status = ACTIVE | DISCHARGED | TRANSFERRED
datatype inventory_category = MEDICINE | EQUIPMENT | SUPPLIES

record user =
  u_id :: text_id
  u_email :: string
  u_firstName :: string
  u_lastName :: string
  u_role :: role

record patient =
  p_id :: ident
  p_mrn :: string
  p_firstName :: string
  p_lastName :: string
  p_dateOfBirth :: timestamp
  p_gender :: gender
  p_contactNumber :: string
  p_email :: "string option"
  p_address :: string
  p_bloodGroup :: "string option"
  p_allergies :: "string option"
  p_medicalHistory :: "string option"

record appointment =
  ap_id :: ident
  ap_patientId :: ident
  ap_doctorId :: text_id
  ap_date :: timestamp
  ap_time :: string
  ap_status :: appointment_status
  ap_type :: appointment_type
  ap_notes :: "string option"
  ap_queueNumber :: "int option"

record bed =
  b_id :: ident
  b_bedNumber :: string
  b_ward :: ward_type
  b_status :: bed_status
  b_patientId :: "ident option"
  b_admissionDate :: "timestamp option"
  b_expectedDischargeDate :: "timestamp option"
  b_notes :: "string option"

record admission =
  a_id :: ident
  a_patientId :: ident
  a_bedId :: ident
  a_admissionDate :: timestamp
  a_dischargeDate :: "timestamp option"
  a_doctorId :: text_id
  a_diagnosis :: "string option"
  a_status :: admission_status
  a_notes :: "string option"

record inventory_item =
  i_id :: ident
  i_name :: string
  i_category :: inventory_category
  i_description :: "string option"
  i_unit :: string
  i_quantity :: int
  i_reorderLevel :: int
  i_cost :: rat
  i_supplier :: "string option"
  i_expiryDate :: "timestamp option"
  i_location :: "string option"

record store =
  users :: "user list"
  patients :: "patient list"
  appointments :: "appointment list"
  beds :: "bed list"
  admissions :: "admission list"
  inventory :: "inventory_item list"

definition empty_store :: store where
  "empty_store = \<lparr>users = [], patients = [], appointments = [], beds = [],
     admissions = [], inventory = []\<rparr>"

text \<open>The store right after migration, holding only the user accounts provisioned from
  the identity provider (no route creates users).\<close>

definition initial_store :: "user list \<Rightarrow> store" where
  "initial_store us = empty_store\<lparr>users := us\<rparr>"

section \<open>Responses and store failures\<close>

text \<open>
  Every handler ends in \<open>res.status(...).json(...)\<close>; the model keeps the status and the
  payload or message. \<open>ValidationErrors\<close> is status 400 with the messages of the validators
  that failed. A rejected promise of the ORM is a \<open>store_error\<close> (no row for the id of an
  update or delete, a unique index or a foreign key violated, an integer that does not
  fit its INTEGER column), which the handler's \<open>catch\<close> turns into status 500.
  \<open>NoResponse\<close> is a handler that returns without writing a response.
\<close>

datatype store_error = RecordNotFound | UniqueViolation | ForeignKeyViolation | ValueOutOfRange

datatype 'a response =
    Ok 'a
  | Created 'a
  | Message string
  | ValidationErrors "string list"
  | BadRequest string
  | NotFound string
  | ServerError store_error
  | NoResponse

section \<open>JavaScript and ORM helpers\<close>

text \<open>
  A body field that may be missing is an option (\<open>None\<close> is \<open>undefined\<close>).
  \<open>js_or\<close> is \<open>req.body.x || old\<close> for a string field: \<open>undefined\<close> and the empty string are
  falsy. \<open>js_or_num\<close> is the same for a number, where 0 is falsy. \<open>prisma_set\<close> is a
  field of an update's \<open>data\<close>: \<open>undefined\<close> leaves the column as it is.
\<close>

fun js_or :: "string option \<Rightarrow> string option \<Rightarrow> string option" where
  "js_or None old = old"
| "js_or (Some s) old = (if s = [] then old else Some s)"

fun js_or_str :: "string option \<Rightarrow> string \<Rightarrow> string" where
  "js_or_str None old = old"
| "js_or_str (Some s) old = (if s = [] then old else s)"

fun js_or_num :: "'a::zero option \<Rightarrow> 'a \<Rightarrow> 'a" where
  "js_or_num None old = old"
| "js_or_num (Some n) old = (if n = 0 then old else n)"

fun prisma_set :: "'a option \<Rightarrow> 'a option \<Rightarrow> 'a option" where
  "prisma_set None old = old"
| "prisma_set (Some v) old = Some v"

fun prisma_set_req :: "'a option \<Rightarrow> 'a \<Rightarrow> 'a" where
  "prisma_set_req None old = old"
| "prisma_set_req (Some v) old = v"

text \<open>Modelled from the spec: the identifier default of the ORM schema is not among the
  sources; the spec has each entity carry a generated id that is its primary key. The
  model issues an identifier that no row of the table uses.\<close>

definition fresh_id :: "ident list \<Rightarrow> ident" where
  "fresh_id ids = Suc (fold max ids 0)"

section \<open>Store primitives\<close>


text \<open>The awaited reads by key.\<close>

definition find_user :: "store \<Rightarrow> text_id \<Rightarrow> user option" where
  "find_user s i = find (\<lambda>u. u_id u = i) (users s)"

definition find_patient :: "store \<Rightarrow> ident \<Rightarrow> patient option" where
  "find_patient s i = find (\<lambda>p. p_id p = i) (patients s)"

definition find_bed :: "store \<Rightarrow> ident \<Rightarrow> bed option" where
  "find_bed s i = find (\<lambda>b. b_id b = i) (beds s)"

definition find_admission :: "store \<Rightarrow> ident \<Rightarrow> admission option" where
  "find_admission s i = find (\<lambda>a. a_id a = i) (admissions s)"

definition find_appointment :: "store \<Rightarrow> ident \<Rightarrow> appointment option" where
  "find_appointment s i = find (\<lambda>a. ap_id a = i) (appointments s)"

definition find_item :: "store \<Rightarrow> ident \<Rightarrow> inventory_item option" where
  "find_item s i = find (\<lambda>x. i_id x = i) (inventory s)"

text \<open>A read by an identifier taken from a request body that no validator has checked:
  no row of a table with generated keys has an id that is not a UUID.\<close>

fun lookup_patient :: "store \<Rightarrow> text_id \<Rightarrow> patient option" where
  "lookup_patient s (Uuid p) = find_patient s p"
| "lookup_patient s (Other t) = None"

text \<open>\<open>prisma.patient.create\<close>: the unique index \<open>Patient_mrn_key\<close> is checked; the row
  receives a generated id.\<close>

definition patient_create :: "store \<Rightarrow> patient \<Rightarrow> store_error + store \<times> patient" where
  "patient_create s row =
     (if find (\<lambda>p. p_mrn p = p_mrn row) (patients s) \<noteq> None then Inl UniqueViolation
      else (let p = row\<lparr>p_id := fresh_id (map p_id (patients s))\<rparr>
            in Inr (s\<lparr>patients := patients s @ [p]\<rparr>, p)))"

text \<open>\<open>prisma.patient.update\<close>: fails when no row has the id.\<close>

definition patient_update :: "store \<Rightarrow> ident \<Rightarrow> (patient \<Rightarrow> patient)
    \<Rightarrow> store_error + store \<times> patient" where
  "patient_update s i f =
     (case find_patient s i of
        None \<Rightarrow> Inl RecordNotFound
      | Some p \<Rightarrow>
          Inr (s\<lparr>patients := map (\<lambda>x. if p_id x = i then f x else x) (patients s)\<rparr>, f p))"

text \<open>\<open>prisma.patient.delete\<close>: the Appointment and Admission foreign keys are ON DELETE
  RESTRICT, the Bed foreign key is ON DELETE SET NULL.\<close>

definition patient_delete :: "store \<Rightarrow> ident \<Rightarrow> store_error + store \<times> patient" where
  "patient_delete s i =
     (case find_patient s i of
        None \<Rightarrow> Inl RecordNotFound
      | Some p \<Rightarrow>
          (if find (\<lambda>a. ap_patientId a = i) (appointments s) \<noteq> None
              \<or> find (\<lambda>a. a_patientId a = i) (admissions s) \<noteq> None
           then Inl ForeignKeyViolation
           else Inr (s\<lparr>patients := filter (\<lambda>x. p_id x \<noteq> i) (patients s),
                       beds := map (\<lambda>b. if b_patientId b = Some i then b\<lparr>b_patientId := None\<rparr>
                                         else b) (beds s)\<rparr>, p)))"

text \<open>\<open>prisma.appointment.create\<close>: the two foreign keys of the Appointment table are
  checked and the queue number has to fit the INTEGER column; the row receives a
  generated id.\<close>

definition appointment_create :: "store \<Rightarrow> appointment \<Rightarrow> store_error + store \<times> appointment" where
  "appointment_create s row =
     (if find_patient s (ap_patientId row) = None \<or> find_user s (ap_doctorId row) = None
      then Inl ForeignKeyViolation
      else if (case ap_queueNumber row of None \<Rightarrow> False | Some q \<Rightarrow> \<not> int4 q)
      then Inl ValueOutOfRange
      else (let a = row\<lparr>ap_id := fresh_id (map ap_id (appointments s))\<rparr>
            in Inr (s\<lparr>appointments := appointments s @ [a]\<rparr>, a)))"

definition appointment_update :: "store \<Rightarrow> ident \<Rightarrow> (appointment \<Rightarrow> appointment)
    \<Rightarrow> store_error + store \<times> appointment" where
  "appointment_update s i f =
     (case find_appointment s i of
        None \<Rightarrow> Inl RecordNotFound
      | Some a \<Rightarrow>
          Inr (s\<lparr>appointments := map (\<lambda>x. if ap_id x = i then f x else x) (appointments s)\<rparr>,
               f a))"

definition appointment_delete :: "store \<Rightarrow> ident \<Rightarrow> store_error + store \<times> appointment" where
  "appointment_delete s i =
     (case find_appointment s i of
        None \<Rightarrow> Inl RecordNotFound
      | Some a \<Rightarrow> Inr (s\<lparr>appointments := filter (\<lambda>x. ap_id x \<noteq> i) (appointments s)\<rparr>, a))"

text \<open>\<open>prisma.bed.create\<close>: the unique index \<open>Bed_bedNumber_key\<close> is checked; the row
  receives a generated id.\<close>

definition bed_create :: "store \<Rightarrow> bed \<Rightarrow> store_error + store \<times> bed" where
  "bed_create s row =
     (if find (\<lambda>b. b_bedNumber b = b_bedNumber row) (beds s) \<noteq> None then Inl UniqueViolation
      else (let b = row\<lparr>b_id := fresh_id (map b_id (beds s))\<rparr>
            in Inr (s\<lparr>beds := beds s @ [b]\<rparr>, b)))"

text \<open>\<open>prisma.bed.update\<close>: fails when no row has the id; the foreign key
  \<open>Bed_patientId_fkey\<close> is checked when the update changes the patient of the row.\<close>

definition bed_update :: "store \<Rightarrow> ident \<Rightarrow> (bed \<Rightarrow> bed) \<Rightarrow> store_error + store \<times> bed" where
  "bed_update s i f =
     (case find_bed s i of
        None \<Rightarrow> Inl RecordNotFound
      | Some b \<Rightarrow>
          (case b_patientId (f b) of
             None \<Rightarrow> Inr (s\<lparr>beds := map (\<lambda>x. if b_id x = i then f x else x) (beds s)\<rparr>, f b)
           | Some p \<Rightarrow>
               (if b_patientId b \<noteq> Some p \<and> find_patient s p = None
                then Inl ForeignKeyViolation
                else Inr (s\<lparr>beds := map (\<lambda>x. if b_id x = i then f x else x) (beds s)\<rparr>, f b))))"

text \<open>\<open>prisma.bed.delete\<close>: the Admission foreign key is ON DELETE RESTRICT.\<close>

definition bed_delete :: "store \<Rightarrow> ident \<Rightarrow> store_error + store \<times> bed" where
  "bed_delete s i =
     (case find_bed s i of
        None \<Rightarrow> Inl RecordNotFound
      | Some b \<Rightarrow>
          (if find (\<lambda>a. a_bedId a = i) (admissions s) \<noteq> None then Inl ForeignKeyViolation
           else Inr (s\<lparr>beds := filter (\<lambda>x. b_id x \<noteq> i) (beds s)\<rparr>, b)))"

text \<open>\<open>prisma.admission.create\<close>: the three foreign keys of the Admission table are
  checked; the row receives a generated id.\<close>

definition admission_create :: "store \<Rightarrow> admission \<Rightarrow> store_error + store \<times> admission" where
  "admission_create s row =
     (if find_patient s (a_patientId row) = None \<or> find_bed s (a_bedId row) = None
         \<or> find_user s (a_doctorId row) = None
      then Inl ForeignKeyViolation
      else (let a = row\<lparr>a_id := fresh_id (map a_id (admissions s))\<rparr>
            in Inr (s\<lparr>admissions := admissions s @ [a]\<rparr>, a)))"

definition admission_update :: "store \<Rightarrow> ident \<Rightarrow> (admission \<Rightarrow> admission)
    \<Rightarrow> store_error + store \<times> admission" where
  "admission_update s i f =
     (case find_admission s i of
        None \<Rightarrow> Inl RecordNotFound
      | Some a \<Rightarrow>
          Inr (s\<lparr>admissions := map (\<lambda>x. if a_id x = i then f x else x) (admissions s)\<rparr>, f a))"

definition admission_delete :: "store \<Rightarrow> ident \<Rightarrow> store_error + store \<times> admission" where
  "admission_delete s i =
     (case find_admission s i of
        None \<Rightarrow> Inl RecordNotFound
      | Some a \<Rightarrow> Inr (s\<lparr>admissions := filter (\<lambda>x. a_id x \<noteq> i) (admissions s)\<rparr>, a))"

text \<open>\<open>prisma.inventoryItem.create\<close> and \<open>update\<close>: \<open>quantity\<close> and \<open>reorderLevel\<close> have to
  fit their INTEGER columns.\<close>

definition item_create :: "store \<Rightarrow> inventory_item \<Rightarrow> store_error + store \<times> inventory_item" where
  "item_create s row =
     (if \<not> int4 (i_quantity row) \<or> \<not> int4 (i_reorderLevel row) then Inl ValueOutOfRange
      else (let x = row\<lparr>i_id := fresh_id (map i_id (inventory s))\<rparr>
            in Inr (s\<lparr>inventory := inventory s @ [x]\<rparr>, x)))"

definition item_update :: "store \<Rightarrow> ident \<Rightarrow> (inventory_item \<Rightarrow> inventory_item)
    \<Rightarrow> store_error + store \<times> inventory_item" where
  "item_update s i f =
     (case find_item s i of
        None \<Rightarrow> Inl RecordNotFound
      | Some x \<Rightarrow>
          (if \<not> int4 (i_quantity (f x)) \<or> \<not> int4 (i_reorderLevel (f x)) then Inl ValueOutOfRange
           else Inr (s\<lparr>inventory := map (\<lambda>y. if i_id y = i then f y else y) (inventory s)\<rparr>,
                     f x)))"

definition item_delete :: "store \<Rightarrow> ident \<Rightarrow> store_error + store \<times> inventory_item" where
  "item_delete s i =
     (case find_item s i of
        None \<Rightarrow> Inl RecordNotFound
      | Some x \<Rightarrow> Inr (s\<lparr>inventory := filter (\<lambda>y. i_id y \<noteq> i) (inventory s)\<rparr>, x))"

text \<open>The reset written to a bed on discharge, transfer and deletion of an active
  admission.\<close>

definition free_bed :: "bed \<Rightarrow> bed" where
  "free_bed b = b\<lparr>b_status := AVAILABLE, b_patientId := None, b_admissionDate := None,
     b_expectedDischargeDate := None\<rparr>"

section \<open>Handlers as processes\<close>

text \<open>
  A handler is an \<open>async\<close> function: it gives up control at every \<open>await\<close>, and other
  requests are served before it resumes. A process is either the response that the
  handler writes, or an awaited call of the ORM: a function of the store as it is when
  the call runs, which gives the store after the call and the rest of the handler.
  \<open>query\<close> is an awaited read. \<open>command\<close> is an awaited write or \<open>prisma.$transaction\<close>; when
  its promise is rejected nothing is written and the handler's \<open>catch\<close> answers with the
  error. \<open>run_proc\<close> serves a handler from its first call to its response with no other
  request in between.
\<close>

datatype 'a proc = Return "'a response" | Await "store \<Rightarrow> store \<times> 'a proc"

definition query :: "(store \<Rightarrow> 'b) \<Rightarrow> ('b \<Rightarrow> 'a proc) \<Rightarrow> 'a proc" where
  "query q k = Await (\<lambda>s. (s, k (q s)))"

definition command :: "(store \<Rightarrow> store_error + store \<times> 'b) \<Rightarrow> ('b \<Rightarrow> 'a proc) \<Rightarrow> 'a proc" where
  "command w k =
     Await (\<lambda>s. case w s of Inl e \<Rightarrow> (s, Return (ServerError e)) | Inr (s1, x) \<Rightarrow> (s1, k x))"

primrec run_proc :: "'a proc \<Rightarrow> store \<Rightarrow> store \<times> 'a response" where
  "run_proc (Return r) s = (s, r)"
| "run_proc (Await f) s = (case map_prod id run_proc (f s) of (s1, rest) \<Rightarrow> rest s1)"

section \<open>Validation\<close>

text \<open>
  Each mutating route runs its chain of validators and answers status 400 with their
  messages before its \<open>try\<close> block when one of them fails. A body field keeps its raw form
  where a validator of the route can refuse a value of the field's type: an identifier
  is a \<open>text_id\<close>, a required text may be empty, an integer may be out of range. A field of an
  enumeration is of the datatype and a date is a timestamp, which leaves out the values
  that \<open>isIn\<close> and \<open>isDate\<close> refuse; the id of a path is an \<open>ident\<close>, which \<open>param('id').isUUID()\<close>
  accepts. A body field that may be missing is an option, and an optional field read
  under a truthiness test is an option whose \<open>None\<close> covers every falsy value.

  \<open>isInt\<close> tests the decimal form of a number, which JavaScript writes with an exponent
  from \<open>10\<^sup>2\<^sup>1\<close> on. \<open>valid_time\<close> is the pattern
  \<^verbatim>\<open>/^([0-1]?[0-9]|2[0-3]):[0-5][0-9]$/\<close> of the appointment time.
\<close>

definition required :: "string \<Rightarrow> string \<Rightarrow> string list" where
  "required field message = (if field = [] then [message] else [])"

definition isInt :: "int \<Rightarrow> int \<Rightarrow> bool" where
  "isInt least n \<longleftrightarrow> least \<le> n \<and> \<bar>n\<bar> < 10 ^ 21"

definition digit :: "char \<Rightarrow> bool" where
  "digit c \<longleftrightarrow> c \<in> set ''0123456789''"

fun valid_time :: "string \<Rightarrow> bool" where
  "valid_time [h, c, m1, m2] =
     (digit h \<and> c = CHR '':'' \<and> m1 \<in> set ''012345'' \<and> digit m2)"
| "valid_time [h1, h2, c, m1, m2] =
     ((h1 \<in> set ''01'' \<and> digit h2 \<or> h1 = CHR ''2'' \<and> h2 \<in> set ''0123'')
      \<and> c = CHR '':'' \<and> m1 \<in> set ''012345'' \<and> digit m2)"
| "valid_time t = False"

section \<open>routes/admissions.js\<close>

record admissions_post_body =
  ac_patientId :: text_id
  ac_bedId :: text_id
  ac_doctorId :: text_id
  ac_admissionDate :: timestamp
  ac_expectedDischargeDate :: "timestamp option"
  ac_diagnosis :: "string option"
  ac_notes :: "string option"

text \<open>The messages of \<open>validationResult\<close> for the chain of the POST route.\<close>

definition admissions_post_errors :: "admissions_post_body \<Rightarrow> string list" where
  "admissions_post_errors body =
     (if isUUID (ac_patientId body) then [] else [''Valid patient ID is required''])
     @ (if isUUID (ac_bedId body) then [] else [''Valid bed ID is required''])
     @ (if isUUID (ac_doctorId body) then [] else [''Valid doctor ID is required''])"

text \<open>The \<open>prisma.$transaction\<close> of the POST handler for the patient \<open>p\<close>, the bed \<open>b\<close> and
  the doctor \<open>d\<close> of the body, on the store as it is when the transaction runs: the update
  of the bed, then the creation of the admission. When either write fails the
  transaction is rolled back.\<close>

definition admission_transaction :: "store \<Rightarrow> ident \<Rightarrow> ident \<Rightarrow> ident \<Rightarrow> admissions_post_body
    \<Rightarrow> store_error + store \<times> admission" where
  "admission_transaction s p b d body =
     (case bed_update s b
             (\<lambda>x. x\<lparr>b_status := OCCUPIED, b_patientId := Some p,
                    b_admissionDate := Some (ac_admissionDate body),
                    b_expectedDischargeDate := ac_expectedDischargeDate body\<rparr>) of
        Inl e \<Rightarrow> Inl e
      | Inr (s1, occupied) \<Rightarrow>
          admission_create s1
            \<lparr>a_id = 0, a_patientId = p, a_bedId = b,
             a_admissionDate = ac_admissionDate body, a_dischargeDate = None,
             a_doctorId = Uuid d, a_diagnosis = ac_diagnosis body,
             a_status = ACTIVE, a_notes = ac_notes body\<rparr>)"

text \<open>The \<open>try\<close> block of the POST handler, for a body whose three ids are the UUIDs \<open>p\<close>,
  \<open>b\<close> and \<open>d\<close>: four awaited reads, each followed by its test, then the transaction.\<close>

definition admit :: "ident \<Rightarrow> ident \<Rightarrow> ident \<Rightarrow> admissions_post_body \<Rightarrow> admission proc" where
  "admit p b d body =
     query (\<lambda>s. find_patient s p) (\<lambda>patient.
       if patient = None then Return (BadRequest ''Patient not found'')
       else
     query (\<lambda>s. find_bed s b) (\<lambda>bed.
       if bed = None then Return (BadRequest ''Bed not found'')
       else if map_option b_status bed \<noteq> Some AVAILABLE
       then Return (BadRequest ''Bed is not available'')
       else
     query (\<lambda>s. find_user s (Uuid d)) (\<lambda>doctor.
       if doctor = None \<or> map_option u_role doctor \<noteq> Some DOCTOR
       then Return (BadRequest ''Valid doctor not found'')
       else
     query (\<lambda>s. find (\<lambda>a. a_patientId a = p \<and> a_status a = ACTIVE) (admissions s))
       (\<lambda>activeAdmission.
       if activeAdmission \<noteq> None
       then Return (BadRequest ''Patient already has an active admission'')
       else
     command (\<lambda>s. admission_transaction s p b d body) (\<lambda>newAdmission.
       Return (Created newAdmission))))))"

definition admissions_post_handler :: "admissions_post_body \<Rightarrow> admission proc" where
  "admissions_post_handler body =
     (case (ac_patientId body, ac_bedId body, ac_doctorId body) of
        (Uuid p, Uuid b, Uuid d) \<Rightarrow> admit p b d body
      | _ \<Rightarrow> Return (ValidationErrors (admissions_post_errors body)))"

definition admissions_post :: "store \<Rightarrow> admissions_post_body \<Rightarrow> store \<times> admission response" where
  "admissions_post s body = run_proc (admissions_post_handler body) s"

record admissions_put_body =
  au_status :: "admission_status option"
  au_dischargeDate :: "timestamp option"
  au_diagnosis :: "string option"
  au_notes :: "string option"

text \<open>The two branches of the PUT handler, for the row \<open>admission\<close> read before: the
  discharge or transfer transaction, and the simple update that follows the guard.\<close>

definition discharge_or_transfer :: "timestamp \<Rightarrow> store \<Rightarrow> ident \<Rightarrow> admission
    \<Rightarrow> admission_status \<Rightarrow> admissions_put_body \<Rightarrow> store_error + store \<times> admission" where
  "discharge_or_transfer now s i admission st body =
     (case admission_update s i
             (\<lambda>a. a\<lparr>a_status := st,
                    a_dischargeDate := Some (case au_dischargeDate body of
                                               Some d \<Rightarrow> d | None \<Rightarrow> now),
                    a_notes := js_or (au_notes body) (a_notes admission)\<rparr>) of
        Inl e \<Rightarrow> Inl e
      | Inr (s1, updated) \<Rightarrow>
     (case bed_update s1 (a_bedId admission) free_bed of
        Inl e \<Rightarrow> Inl e
      | Inr (s2, freed) \<Rightarrow> Inr (s2, updated)))"

definition simple_update :: "ident \<Rightarrow> admission \<Rightarrow> admissions_put_body \<Rightarrow> admission proc" where
  "simple_update i admission body =
     command (\<lambda>s. admission_update s i
                 (\<lambda>a. a\<lparr>a_diagnosis := js_or (au_diagnosis body) (a_diagnosis admission),
                        a_notes := js_or (au_notes body) (a_notes admission)\<rparr>))
       (\<lambda>updatedAdmission. Return (Ok updatedAdmission))"

definition admissions_put_handler :: "timestamp \<Rightarrow> ident \<Rightarrow> admissions_put_body
    \<Rightarrow> admission proc" where
  "admissions_put_handler now i body =
     query (\<lambda>s. find_admission s i) (\<lambda>found.
       case found of
         None \<Rightarrow> Return (NotFound ''Admission not found'')
       | Some admission \<Rightarrow>
           (case au_status body of
              None \<Rightarrow> simple_update i admission body
            | Some st \<Rightarrow>
                if st \<noteq> ACTIVE \<and> a_status admission = ACTIVE
                then command (\<lambda>s. discharge_or_transfer now s i admission st body)
                       (\<lambda>updatedAdmission. Return (Ok updatedAdmission))
                else simple_update i admission body))"

definition admissions_put :: "timestamp \<Rightarrow> store \<Rightarrow> ident \<Rightarrow> admissions_put_body
    \<Rightarrow> store \<times> admission response" where
  "admissions_put now s i body = run_proc (admissions_put_handler now i body) s"

text \<open>The transaction of the DELETE handler for an active admission.\<close>

definition free_and_delete :: "store \<Rightarrow> ident \<Rightarrow> admission \<Rightarrow> store_error + store \<times> admission" where
  "free_and_delete s i admission =
     (case bed_update s (a_bedId admission) free_bed of
        Inl e \<Rightarrow> Inl e
      | Inr (s1, freed) \<Rightarrow> admission_delete s1 i)"

definition admissions_delete_handler :: "ident \<Rightarrow> admission proc" where
  "admissions_delete_handler i =
     query (\<lambda>s. find_admission s i) (\<lambda>found.
       case found of
         None \<Rightarrow> Return (NotFound ''Admission not found'')
       | Some admission \<Rightarrow>
           if a_status admission = ACTIVE
           then command (\<lambda>s. free_and_delete s i admission)
                  (\<lambda>deleted. Return (Message ''Admission deleted successfully''))
           else command (\<lambda>s. admission_delete s i)
                  (\<lambda>deleted. Return (Message ''Admission deleted successfully'')))"

definition admissions_delete :: "store \<Rightarrow> ident \<Rightarrow> store \<times> admission response" where
  "admissions_delete s i = run_proc (admissions_delete_handler i) s"

section \<open>routes/beds.js\<close>

text \<open>The routes are mounted behind the authentication middleware, so the test of
  \<open>req.auth\<close> in the POST handler passes.\<close>

record beds_post_body =
  bc_bedNumber :: string
  bc_ward :: ward_type
  bc_status :: "bed_status option"
  bc_notes :: "string option"

definition beds_post_handler :: "beds_post_body \<Rightarrow> bed proc" where
  "beds_post_handler body =
     (if required (bc_bedNumber body) ''Bed number is required'' \<noteq> []
      then Return (ValidationErrors (required (bc_bedNumber body) ''Bed number is required''))
      else
     query (\<lambda>s. find (\<lambda>b. b_bedNumber b = bc_bedNumber body) (beds s)) (\<lambda>existingBed.
       if existingBed \<noteq> None then Return (BadRequest ''Bed number already exists'')
       else
     command (\<lambda>s. bed_create s
                \<lparr>b_id = 0, b_bedNumber = bc_bedNumber body, b_ward = bc_ward body,
                 b_status = (case bc_status body of None \<Rightarrow> AVAILABLE | Some st \<Rightarrow> st),
                 b_patientId = None, b_admissionDate = None,
                 b_expectedDischargeDate = None, b_notes = bc_notes body\<rparr>)
       (\<lambda>newBed. Return (Created newBed))))"

definition beds_post :: "store \<Rightarrow> beds_post_body \<Rightarrow> store \<times> bed response" where
  "beds_post s body = run_proc (beds_post_handler body) s"

record beds_put_body =
  bu_status :: "bed_status option"
  bu_patientId :: "text_id option"
  bu_admissionDate :: "timestamp option"
  bu_expectedDischargeDate :: "timestamp option"
  bu_notes :: "string option"

text \<open>The part of the PUT handler after the status block: the patient association if a
  patient id is given, else the update of the notes alone.\<close>

definition beds_put_association :: "timestamp \<Rightarrow> ident \<Rightarrow> beds_put_body \<Rightarrow> bed proc" where
  "beds_put_association now i body =
     (case bu_patientId body of
        Some pid \<Rightarrow>
          query (\<lambda>s. lookup_patient s pid) (\<lambda>found.
            case found of
              None \<Rightarrow> Return (BadRequest ''Patient not found'')
            | Some patient \<Rightarrow>
                command (\<lambda>s. bed_update s i
                           (\<lambda>b. b\<lparr>b_status := OCCUPIED, b_patientId := Some (p_id patient),
                                  b_admissionDate := Some (case bu_admissionDate body of
                                                             Some d \<Rightarrow> d | None \<Rightarrow> now),
                                  b_expectedDischargeDate := bu_expectedDischargeDate body,
                                  b_notes := prisma_set (bu_notes body) (b_notes b)\<rparr>))
                  (\<lambda>updatedBed. Return (Ok updatedBed)))
      | None \<Rightarrow>
          command (\<lambda>s. bed_update s i (\<lambda>b. b\<lparr>b_notes := prisma_set (bu_notes body) (b_notes b)\<rparr>))
            (\<lambda>updatedBed. Return (Ok updatedBed)))"

definition beds_put_handler :: "timestamp \<Rightarrow> ident \<Rightarrow> beds_put_body \<Rightarrow> bed proc" where
  "beds_put_handler now i body =
     query (\<lambda>s. find_bed s i) (\<lambda>found.
       case found of
         None \<Rightarrow> Return (NotFound ''Bed not found'')
       | Some bed \<Rightarrow>
           (case bu_status body of
              None \<Rightarrow> beds_put_association now i body
            | Some st \<Rightarrow>
                if st \<noteq> b_status bed then
                  (if st = AVAILABLE \<or> st = MAINTENANCE then
                     command (\<lambda>s. bed_update s i
                                (\<lambda>b. b\<lparr>b_status := st, b_patientId := None,
                                       b_admissionDate := None,
                                       b_expectedDischargeDate := None,
                                       b_notes := prisma_set (bu_notes body) (b_notes b)\<rparr>))
                       (\<lambda>written. Return NoResponse)
                   else if st = OCCUPIED \<and> bu_patientId body = None then
                     Return (BadRequest
                       ''Patient ID is required when setting bed status to occupied'')
                   else beds_put_association now i body)
                else beds_put_association now i body))"

definition beds_put :: "timestamp \<Rightarrow> store \<Rightarrow> ident \<Rightarrow> beds_put_body \<Rightarrow> store \<times> bed response" where
  "beds_put now s i body = run_proc (beds_put_handler now i body) s"

definition beds_delete_handler :: "ident \<Rightarrow> bed proc" where
  "beds_delete_handler i =
     query (\<lambda>s. find_bed s i) (\<lambda>found.
       case found of
         None \<Rightarrow> Return (NotFound ''Bed not found'')
       | Some bed \<Rightarrow>
           if b_status bed = OCCUPIED then Return (BadRequest ''Cannot delete an occupied bed'')
           else
     query (\<lambda>s. filter (\<lambda>a. a_bedId a = i \<and> a_status a = ACTIVE) (admissions s))
       (\<lambda>activeAdmissions.
           if activeAdmissions \<noteq> []
           then Return (BadRequest ''Cannot delete a bed with active admissions'')
           else
     command (\<lambda>s. bed_delete s i) (\<lambda>deleted. Return (Message ''Bed deleted successfully''))))"

definition beds_delete :: "store \<Rightarrow> ident \<Rightarrow> store \<times> bed response" where
  "beds_delete s i = run_proc (beds_delete_handler i) s"

section \<open>routes/patients.js\<close>

record patients_put_body =
  pu_firstName :: string
  pu_lastName :: string
  pu_dateOfBirth :: timestamp
  pu_gender :: gender
  pu_contactNumber :: string
  pu_email :: "string option"
  pu_address :: string
  pu_bloodGroup :: "string option"
  pu_allergies :: "string option"
  pu_medicalHistory :: "string option"

record patients_post_body = patients_put_body +
  pc_mrn :: string

definition patients_put_errors :: "'a patients_put_body_scheme \<Rightarrow> string list" where
  "patients_put_errors body =
     required (pu_firstName body) ''First name is required''
     @ required (pu_lastName body) ''Last name is required''
     @ required (pu_contactNumber body) ''Contact number is required''
     @ required (pu_address body) ''Address is required''"

definition patients_post_errors :: "patients_post_body \<Rightarrow> string list" where
  "patients_post_errors body =
     patients_put_errors body
     @ required (pc_mrn body) ''Medical Record Number (MRN) is required''"

definition patients_post_handler :: "patients_post_body \<Rightarrow> patient proc" where
  "patients_post_handler body =
     (if patients_post_errors body \<noteq> []
      then Return (ValidationErrors (patients_post_errors body))
      else
     query (\<lambda>s. find (\<lambda>p. p_mrn p = pc_mrn body) (patients s)) (\<lambda>existingMRN.
       if existingMRN \<noteq> None
       then Return (BadRequest ''Medical Record Number (MRN) already in use'')
       else
     command (\<lambda>s. patient_create s
                \<lparr>p_id = 0, p_mrn = pc_mrn body,
                 p_firstName = pu_firstName body, p_lastName = pu_lastName body,
                 p_dateOfBirth = pu_dateOfBirth body, p_gender = pu_gender body,
                 p_contactNumber = pu_contactNumber body, p_email = pu_email body,
                 p_address = pu_address body, p_bloodGroup = pu_bloodGroup body,
                 p_allergies = pu_allergies body, p_medicalHistory = pu_medicalHistory body\<rparr>)
       (\<lambda>newPatient. Return (Created newPatient))))"

definition patients_post :: "store \<Rightarrow> patients_post_body \<Rightarrow> store \<times> patient response" where
  "patients_post s body = run_proc (patients_post_handler body) s"

text \<open>The \<open>data\<close> object of the patients PUT handler, written to the row.\<close>

definition patients_put_data :: "patients_put_body \<Rightarrow> patient \<Rightarrow> patient" where
  "patients_put_data body x =
     x\<lparr>p_firstName := pu_firstName body, p_lastName := pu_lastName body,
       p_dateOfBirth := pu_dateOfBirth body, p_gender := pu_gender body,
       p_contactNumber := pu_contactNumber body,
       p_email := prisma_set (pu_email body) (p_email x),
       p_address := pu_address body,
       p_bloodGroup := prisma_set (pu_bloodGroup body) (p_bloodGroup x),
       p_allergies := prisma_set (pu_allergies body) (p_allergies x),
       p_medicalHistory := prisma_set (pu_medicalHistory body) (p_medicalHistory x)\<rparr>"

definition patients_put_handler :: "ident \<Rightarrow> patients_put_body \<Rightarrow> patient proc" where
  "patients_put_handler i body =
     (if patients_put_errors body \<noteq> []
      then Return (ValidationErrors (patients_put_errors body))
      else
     query (\<lambda>s. find_patient s i) (\<lambda>patient.
       if patient = None then Return (NotFound ''Patient not found'')
       else
     command (\<lambda>s. patient_update s i (patients_put_data body))
       (\<lambda>updatedPatient. Return (Ok updatedPatient))))"

definition patients_put :: "store \<Rightarrow> ident \<Rightarrow> patients_put_body \<Rightarrow> store \<times> patient response" where
  "patients_put s i body = run_proc (patients_put_handler i body) s"

definition patients_delete_handler :: "ident \<Rightarrow> patient proc" where
  "patients_delete_handler i =
     query (\<lambda>s. find_patient s i) (\<lambda>patient.
       if patient = None then Return (NotFound ''Patient not found'')
       else
     query (\<lambda>s. filter (\<lambda>a. ap_patientId a = i
                          \<and> (ap_status a = SCHEDULED \<or> ap_status a = IN_QUEUE
                             \<or> ap_status a = IN_PROGRESS)) (appointments s))
       (\<lambda>activeAppointments.
     query (\<lambda>s. filter (\<lambda>a. a_patientId a = i \<and> a_status a = ACTIVE) (admissions s))
       (\<lambda>activeAdmissions.
       if activeAppointments \<noteq> [] \<or> activeAdmissions \<noteq> []
       then Return (BadRequest ''Cannot delete patient with active appointments or admissions'')
       else
     command (\<lambda>s. patient_delete s i)
       (\<lambda>deleted. Return (Message ''Patient deleted successfully'')))))"

definition patients_delete :: "store \<Rightarrow> ident \<Rightarrow> store \<times> patient response" where
  "patients_delete s i = run_proc (patients_delete_handler i) s"

section \<open>routes/appointments.js\<close>

text \<open>
  \<open>findFirst\<close> with \<open>orderBy: { queueNumber: 'desc' }\<close> returns the first row of the
  descending order. The migration is PostgreSQL, where a NULL sorts as larger than every
  value, so a descending order lists the rows without a queue number first.
  \<open>desc_before x y\<close> says that \<open>x\<close> comes strictly before \<open>y\<close> in that order.
\<close>

fun desc_before :: "int option \<Rightarrow> int option \<Rightarrow> bool" where
  "desc_before None None = False"
| "desc_before None (Some y) = True"
| "desc_before (Some x) None = False"
| "desc_before (Some x) (Some y) = (y < x)"

fun first_by_queueNumber_desc :: "appointment list \<Rightarrow> appointment option" where
  "first_by_queueNumber_desc [] = None"
| "first_by_queueNumber_desc (r # rs) =
     (case first_by_queueNumber_desc rs of
        None \<Rightarrow> Some r
      | Some b \<Rightarrow> if desc_before (ap_queueNumber b) (ap_queueNumber r) then Some b else Some r)"

record appointments_post_body =
  apc_patientId :: text_id
  apc_doctorId :: text_id
  apc_date :: timestamp
  apc_time :: string
  apc_status :: appointment_status
  apc_type :: appointment_type
  apc_notes :: "string option"

definition appointments_post_errors :: "appointments_post_body \<Rightarrow> string list" where
  "appointments_post_errors body =
     (if isUUID (apc_patientId body) then [] else [''Valid patient ID is required''])
     @ (if isUUID (apc_doctorId body) then [] else [''Valid doctor ID is required''])
     @ (if valid_time (apc_time body) then [] else [''Valid time is required (HH:MM)''])"

text \<open>The block headed \<open>Generate queue number\<close>, on the store as it is when \<open>findFirst\<close>
  runs: the variable starts at 1 and is replaced when the row found has a truthy queue
  number.\<close>

definition generate_queue_number :: "store \<Rightarrow> appointments_post_body \<Rightarrow> int option" where
  "generate_queue_number s body =
     (if apc_status body \<noteq> CANCELLED then
        (case first_by_queueNumber_desc
                (filter (\<lambda>a. ap_date a = apc_date body \<and> ap_status a \<noteq> CANCELLED)
                   (appointments s)) of
           None \<Rightarrow> Some 1
         | Some highestQueue \<Rightarrow>
             (case ap_queueNumber highestQueue of
                None \<Rightarrow> Some 1
              | Some q \<Rightarrow> if q \<noteq> 0 then Some (q + 1) else Some 1))
      else None)"

text \<open>The creation that ends the POST handler, with the queue number computed before.\<close>

definition book :: "ident \<Rightarrow> appointments_post_body \<Rightarrow> int option \<Rightarrow> appointment proc" where
  "book p body queueNumber =
     command (\<lambda>s. appointment_create s
                \<lparr>ap_id = 0, ap_patientId = p, ap_doctorId = apc_doctorId body,
                 ap_date = apc_date body, ap_time = apc_time body,
                 ap_status = apc_status body, ap_type = apc_type body,
                 ap_notes = apc_notes body, ap_queueNumber = queueNumber\<rparr>)
       (\<lambda>newAppointment. Return (Created newAppointment))"

definition appointments_post_handler :: "appointments_post_body \<Rightarrow> appointment proc" where
  "appointments_post_handler body =
     (case (apc_patientId body, isUUID (apc_doctorId body), valid_time (apc_time body)) of
        (Uuid p, True, True) \<Rightarrow>
          query (\<lambda>s. find_patient s p) (\<lambda>patient.
            if patient = None then Return (BadRequest ''Patient not found'')
            else
          query (\<lambda>s. find_user s (apc_doctorId body)) (\<lambda>doctor.
            if doctor = None \<or> map_option u_role doctor \<noteq> Some DOCTOR
            then Return (BadRequest ''Valid doctor not found'')
            else if apc_status body \<noteq> CANCELLED
            then query (\<lambda>s. generate_queue_number s body) (book p body)
            else book p body None))
      | _ \<Rightarrow> Return (ValidationErrors (appointments_post_errors body)))"

definition appointments_post :: "store \<Rightarrow> appointments_post_body
    \<Rightarrow> store \<times> appointment response" where
  "appointments_post s body = run_proc (appointments_post_handler body) s"

record appointments_put_body =
  apu_status :: "appointment_status option"
  apu_notes :: "string option"

text \<open>The \<open>data\<close> object of the appointments PUT handler, written to the row.\<close>

definition appointments_put_data :: "appointments_put_body \<Rightarrow> appointment \<Rightarrow> appointment" where
  "appointments_put_data body x =
     x\<lparr>ap_status := prisma_set_req (apu_status body) (ap_status x),
       ap_notes := prisma_set (apu_notes body) (ap_notes x)\<rparr>"

definition appointments_put_handler :: "ident \<Rightarrow> appointments_put_body \<Rightarrow> appointment proc" where
  "appointments_put_handler i body =
     query (\<lambda>s. find_appointment s i) (\<lambda>appointment.
       if appointment = None then Return (NotFound ''Appointment not found'')
       else
     command (\<lambda>s. appointment_update s i (appointments_put_data body))
       (\<lambda>updatedAppointment. Return (Ok updatedAppointment)))"

definition appointments_put :: "store \<Rightarrow> ident \<Rightarrow> appointments_put_body
    \<Rightarrow> store \<times> appointment response" where
  "appointments_put s i body = run_proc (appointments_put_handler i body) s"

definition appointments_delete_handler :: "ident \<Rightarrow> appointment proc" where
  "appointments_delete_handler i =
     query (\<lambda>s. find_appointment s i) (\<lambda>appointment.
       if appointment = None then Return (NotFound ''Appointment not found'')
       else
     command (\<lambda>s. appointment_delete s i)
       (\<lambda>deleted. Return (Message ''Appointment deleted successfully'')))"

definition appointments_delete :: "store \<Rightarrow> ident \<Rightarrow> store \<times> appointment response" where
  "appointments_delete s i = run_proc (appointments_delete_handler i) s"

section \<open>routes/inventory.js\<close>

text \<open>A number of a body is an integer for \<open>quantity\<close> and \<open>reorderLevel\<close> and a rational
  for \<open>cost\<close>.\<close>

record inventory_post_body =
  ic_name :: string
  ic_category :: inventory_category
  ic_description :: "string option"
  ic_unit :: string
  ic_quantity :: int
  ic_reorderLevel :: int
  ic_cost :: rat
  ic_supplier :: "string option"
  ic_expiryDate :: "timestamp option"
  ic_location :: "string option"

definition inventory_post_errors :: "inventory_post_body \<Rightarrow> string list" where
  "inventory_post_errors body =
     required (ic_name body) ''Name is required''
     @ required (ic_unit body) ''Unit is required''
     @ (if isInt 0 (ic_quantity body) then [] else [''Valid quantity is required''])
     @ (if isInt 1 (ic_reorderLevel body) then [] else [''Valid reorder level is required''])
     @ (if 0 \<le> ic_cost body then [] else [''Valid cost is required''])"

definition inventory_post_handler :: "inventory_post_body \<Rightarrow> inventory_item proc" where
  "inventory_post_handler body =
     (if inventory_post_errors body \<noteq> []
      then Return (ValidationErrors (inventory_post_errors body))
      else
     command (\<lambda>s. item_create s
                \<lparr>i_id = 0, i_name = ic_name body, i_category = ic_category body,
                 i_description = ic_description body, i_unit = ic_unit body,
                 i_quantity = ic_quantity body, i_reorderLevel = ic_reorderLevel body,
                 i_cost = ic_cost body, i_supplier = ic_supplier body,
                 i_expiryDate = ic_expiryDate body, i_location = ic_location body\<rparr>)
       (\<lambda>newItem. Return (Created newItem)))"

definition inventory_post :: "store \<Rightarrow> inventory_post_body \<Rightarrow> store \<times> inventory_item response" where
  "inventory_post s body = run_proc (inventory_post_handler body) s"

record inventory_put_body =
  iu_name :: "string option"
  iu_description :: "string option"
  iu_quantity :: "int option"
  iu_reorderLevel :: "int option"
  iu_cost :: "rat option"
  iu_supplier :: "string option"
  iu_expiryDate :: "timestamp option"
  iu_location :: "string option"

definition inventory_put_errors :: "inventory_put_body \<Rightarrow> string list" where
  "inventory_put_errors body =
     (case iu_quantity body of
        None \<Rightarrow> []
      | Some q \<Rightarrow> if isInt 0 q then [] else [''Valid quantity is required''])"

text \<open>The \<open>data\<close> object of the inventory PUT handler, computed from the body and the
  row \<open>item\<close> read before, and written to the row.\<close>

definition inventory_put_data :: "inventory_put_body \<Rightarrow> inventory_item \<Rightarrow> inventory_item
    \<Rightarrow> inventory_item" where
  "inventory_put_data body item x =
     x\<lparr>i_name := js_or_str (iu_name body) (i_name item),
       i_description := js_or (iu_description body) (i_description item),
       i_quantity := (case iu_quantity body of Some q \<Rightarrow> q | None \<Rightarrow> i_quantity item),
       i_reorderLevel := js_or_num (iu_reorderLevel body) (i_reorderLevel item),
       i_cost := js_or_num (iu_cost body) (i_cost item),
       i_supplier := js_or (iu_supplier body) (i_supplier item),
       i_expiryDate := (case iu_expiryDate body of Some d \<Rightarrow> Some d
                        | None \<Rightarrow> i_expiryDate item),
       i_location := js_or (iu_location body) (i_location item)\<rparr>"

definition inventory_put_handler :: "ident \<Rightarrow> inventory_put_body \<Rightarrow> inventory_item proc" where
  "inventory_put_handler i body =
     (if inventory_put_errors body \<noteq> []
      then Return (ValidationErrors (inventory_put_errors body))
      else
     query (\<lambda>s. find_item s i) (\<lambda>found.
       case found of
         None \<Rightarrow> Return (NotFound ''Inventory item not found'')
       | Some item \<Rightarrow>
           command (\<lambda>s. item_update s i (inventory_put_data body item))
             (\<lambda>updatedItem. Return (Ok updatedItem))))"

definition inventory_put :: "store \<Rightarrow> ident \<Rightarrow> inventory_put_body
    \<Rightarrow> store \<times> inventory_item response" where
  "inventory_put s i body = run_proc (inventory_put_handler i body) s"

definition inventory_delete_handler :: "ident \<Rightarrow> inventory_item proc" where
  "inventory_delete_handler i =
     query (\<lambda>s. find_item s i) (\<lambda>item.
       if item = None then Return (NotFound ''Inventory item not found'')
       else
     command (\<lambda>s. item_delete s i)
       (\<lambda>deleted. Return (Message ''Inventory item deleted successfully'')))"

definition inventory_delete :: "store \<Rightarrow> ident \<Rightarrow> store \<times> inventory_item response" where
  "inventory_delete s i = run_proc (inventory_delete_handler i) s"

section \<open>routes/dashboard.js\<close>

text \<open>
  JavaScript numbers are binary64 values and \<open>/\<close> and \<open>*\<close> round their exact result to the
  nearest one, ties to the even significand. \<open>binary64 q\<close> is that rounding of the exact
  rational \<open>q\<close>: the result has a 53-bit significand, scaled by the power of two of \<open>q\<close>
  (not below the least normal exponent); \<open>ilog2 q\<close> is that power, the floor of the binary
  logarithm of a positive \<open>q\<close>. Overflow is left out: the operands here are
  counts of rows and 100. \<open>Math.round\<close> rounds a tie towards plus infinity.
\<close>

definition pow2 :: "int \<Rightarrow> rat" where
  "pow2 k = (if 0 \<le> k then 2 ^ nat k else 1 / 2 ^ nat (- k))"

definition ilog2 :: "rat \<Rightarrow> int" where
  "ilog2 q = (if 1 \<le> q then bitlen \<lfloor>q\<rfloor> - 1 else - bitlen (\<lceil>1 / q\<rceil> - 1))"

definition round_ties_even :: "rat \<Rightarrow> int" where
  "round_ties_even q =
     (let f = \<lfloor>q\<rfloor>; d = q - of_int f
      in if d < 1 / 2 then f else if 1 / 2 < d then f + 1 else if even f then f else f + 1)"

definition binary64 :: "rat \<Rightarrow> rat" where
  "binary64 q =
     (if q = 0 then 0
      else (let u = pow2 (max (ilog2 \<bar>q\<bar>) (- 1022) - 52)
            in of_int (round_ties_even (q / u)) * u))"

definition Math_round :: "rat \<Rightarrow> int" where
  "Math_round x = \<lfloor>x + 1 / 2\<rfloor>"

definition occupancy_rate :: "nat \<Rightarrow> nat \<Rightarrow> int" where
  "occupancy_rate occupiedBeds allBeds =
     (if allBeds > 0
      then Math_round (binary64 (binary64 (of_nat occupiedBeds / of_nat allBeds) * 100))
      else 0)"


record summary =
  totalPatients :: nat
  totalAppointments :: nat
  appointmentsToday :: nat
  availableBeds :: nat
  occupiedBeds :: nat
  totalBeds :: nat
  occupancyRate :: int
  lowStockItems :: nat

text \<open>The counts and the rate of the summary, for a store that does not change while
  the handler reads it. \<open>today\<close> is local midnight of the request's clock and \<open>tomorrow\<close> the
  midnight after it, both computed by \<open>Date\<close> outside the model.\<close>

definition dashboard_summary :: "timestamp \<Rightarrow> timestamp \<Rightarrow> store \<Rightarrow> summary" where
  "dashboard_summary today tomorrow s =
     (let allBeds = length (beds s);
          occupied = length (filter (\<lambda>b. b_status b = OCCUPIED) (beds s));
          available = length (filter (\<lambda>b. b_status b = AVAILABLE) (beds s))
      in \<lparr>totalPatients = length (patients s),
          totalAppointments = length (appointments s),
          appointmentsToday =
            length (filter (\<lambda>a. today \<le> ap_date a \<and> ap_date a < tomorrow) (appointments s)),
          availableBeds = available,
          occupiedBeds = occupied,
          totalBeds = allBeds,
          occupancyRate = occupancy_rate occupied allBeds,
          lowStockItems =
            length (filter (\<lambda>x. i_quantity x \<le> i_reorderLevel x) (inventory s))\<rparr>)"

text \<open>
  The two lists of the summary are the first five rows of an ordered \<open>findMany\<close>. The
  database fixes the order only as far as \<open>orderBy\<close> does: rows that agree on the sort
  columns come in any order. \<open>first_rows n precedes table rows\<close> says that \<open>rows\<close> may be the
  answer for the first \<open>n\<close> rows of \<open>table\<close>, where \<open>precedes x y\<close> says that the order puts \<open>x\<close>
  strictly before \<open>y\<close>: \<open>rows\<close> are \<open>n\<close> rows of the table (all of them if it has fewer), none
  placed after a row it precedes, and none preceded by a row that is left out. For the
  upcoming appointments only the order of the dates is kept; the order by \<open>time\<close> among
  appointments of one date follows the collation of the database.
\<close>

definition first_rows :: "nat \<Rightarrow> ('a \<Rightarrow> 'a \<Rightarrow> bool) \<Rightarrow> 'a list \<Rightarrow> 'a list \<Rightarrow> bool" where
  "first_rows n precedes table rows \<longleftrightarrow>
     length rows = min n (length table)
     \<and> list_all (\<lambda>x. count_list rows x \<le> count_list table x) rows
     \<and> sorted_wrt (\<lambda>x y. \<not> precedes y x) rows
     \<and> list_all (\<lambda>y. list_all (\<lambda>x. \<not> precedes y x) rows) (fold remove1 rows table)"

definition recentAdmissions :: "store \<Rightarrow> admission list \<Rightarrow> bool" where
  "recentAdmissions s rows =
     first_rows 5 (\<lambda>x y. a_admissionDate y < a_admissionDate x) (admissions s) rows"

definition upcomingAppointments :: "timestamp \<Rightarrow> store \<Rightarrow> appointment list \<Rightarrow> bool" where
  "upcomingAppointments today s rows =
     first_rows 5 (\<lambda>x y. ap_date x < ap_date y)
       (filter (\<lambda>a. today \<le> ap_date a \<and> (ap_status a = SCHEDULED \<or> ap_status a = IN_QUEUE))
          (appointments s))
       rows"

section \<open>The service as a transition system\<close>

text \<open>One constructor for each mutating route. \<open>task now r\<close> is the handler of the request
  \<open>r\<close> at clock value \<open>now\<close>, without the payload of its response; \<open>handle\<close> gives the
  store after a request that is served with no other request in between.\<close>

datatype request =
    PatientsPost patients_post_body
  | PatientsPut ident patients_put_body
  | PatientsDelete ident
  | AppointmentsPost appointments_post_body
  | AppointmentsPut ident appointments_put_body
  | AppointmentsDelete ident
  | BedsPost beds_post_body
  | BedsPut ident beds_put_body
  | BedsDelete ident
  | AdmissionsPost admissions_post_body
  | AdmissionsPut ident admissions_put_body
  | AdmissionsDelete ident
  | InventoryPost inventory_post_body
  | InventoryPut ident inventory_put_body
  | InventoryDelete ident

fun task :: "timestamp \<Rightarrow> request \<Rightarrow> unit proc" where
  "task now (PatientsPost body) = map_proc (\<lambda>x. ()) (patients_post_handler body)"
| "task now (PatientsPut i body) = map_proc (\<lambda>x. ()) (patients_put_handler i body)"
| "task now (PatientsDelete i) = map_proc (\<lambda>x. ()) (patients_delete_handler i)"
| "task now (AppointmentsPost body) = map_proc (\<lambda>x. ()) (appointments_post_handler body)"
| "task now (AppointmentsPut i body) = map_proc (\<lambda>x. ()) (appointments_put_handler i body)"
| "task now (AppointmentsDelete i) = map_proc (\<lambda>x. ()) (appointments_delete_handler i)"
| "task now (BedsPost body) = map_proc (\<lambda>x. ()) (beds_post_handler body)"
| "task now (BedsPut i body) = map_proc (\<lambda>x. ()) (beds_put_handler now i body)"
| "task now (BedsDelete i) = map_proc (\<lambda>x. ()) (beds_delete_handler i)"
| "task now (AdmissionsPost body) = map_proc (\<lambda>x. ()) (admissions_post_handler body)"
| "task now (AdmissionsPut i body) = map_proc (\<lambda>x. ()) (admissions_put_handler now i body)"
| "task now (AdmissionsDelete i) = map_proc (\<lambda>x. ()) (admissions_delete_handler i)"
| "task now (InventoryPost body) = map_proc (\<lambda>x. ()) (inventory_post_handler body)"
| "task now (InventoryPut i body) = map_proc (\<lambda>x. ()) (inventory_put_handler i body)"
| "task now (InventoryDelete i) = map_proc (\<lambda>x. ()) (inventory_delete_handler i)"

definition handle :: "timestamp \<Rightarrow> store \<Rightarrow> request \<Rightarrow> store" where
  "handle now s r = fst (run_proc (task now r) s)"

text \<open>The stores that the service reaches when it serves its requests one at a time,
  each handler running to its response before the next request starts.\<close>

inductive reachable_in_turn :: "store \<Rightarrow> bool" where
  initial: "reachable_in_turn (initial_store us)"
| request: "reachable_in_turn s \<Longrightarrow> reachable_in_turn (handle now s r)"

definition run :: "timestamp \<Rightarrow> store \<Rightarrow> request list \<Rightarrow> store" where
  "run now s rs = foldl (handle now) s rs"

text \<open>
  The stores that the service reaches. \<open>serving s ts\<close> says that the store is \<open>s\<close> while the
  handlers \<open>ts\<close> have been started, each of them standing at an awaited call or at its
  response: a request may arrive at any time, and any handler that stands at an awaited
  call may be the next to resume, up to its next awaited call.
\<close>

inductive serving :: "store \<Rightarrow> unit proc list \<Rightarrow> bool" where
  starts: "serving (initial_store us) []"
| arrives: "serving s ts \<Longrightarrow> serving s (ts @ [task now r])"
| resumes: "serving s ts \<Longrightarrow> i < length ts \<Longrightarrow> ts ! i = Await f
    \<Longrightarrow> serving (fst (f s)) (ts[i := snd (f s)])"

definition reachable :: "store \<Rightarrow> bool" where
  "reachable s \<longleftrightarrow> (\<exists>ts. serving s ts)"

text \<open>A schedule names, step by step, the handler that resumes. \<open>overlapped now s rs order\<close>
  is the store after the requests \<open>rs\<close> have all arrived at the store \<open>s\<close> and their
  handlers have resumed in the order of the schedule.\<close>

fun resume :: "'a proc \<Rightarrow> store \<Rightarrow> store \<times> 'a proc" where
  "resume (Return r) s = (s, Return r)"
| "resume (Await f) s = f s"

fun interleave :: "nat list \<Rightarrow> store \<Rightarrow> 'a proc list \<Rightarrow> store \<times> 'a proc list" where
  "interleave [] s ts = (s, ts)"
| "interleave (i # order) s ts =
     (if i < length ts
      then (case resume (ts ! i) s of (s1, t) \<Rightarrow> interleave order s1 (ts[i := t]))
      else interleave order s ts)"

definition overlapped :: "timestamp \<Rightarrow> store \<Rightarrow> request list \<Rightarrow> nat list \<Rightarrow> store" where
  "overlapped now s rs order = fst (interleave order s (map (task now) rs))"

section \<open>Properties\<close>

subsection \<open>Writes of the admission transactions\<close>

text \<open>The admission row and the bed row written by the transaction of the POST handler,
  and the store holding both writes.\<close>

definition admitted :: "store \<Rightarrow> ident \<Rightarrow> ident \<Rightarrow> ident \<Rightarrow> admissions_post_body \<Rightarrow> admission" where
  "admitted s p b d body =
     \<lparr>a_id = fresh_id (map a_id (admissions s)), a_patientId = p,
      a_bedId = b, a_admissionDate = ac_admissionDate body,
      a_dischargeDate = None, a_doctorId = Uuid d,
      a_diagnosis = ac_diagnosis body, a_status = ACTIVE, a_notes = ac_notes body\<rparr>"

definition occupy :: "ident \<Rightarrow> admissions_post_body \<Rightarrow> bed \<Rightarrow> bed" where
  "occupy p body x = x\<lparr>b_status := OCCUPIED, b_patientId := Some p,
     b_admissionDate := Some (ac_admissionDate body),
     b_expectedDischargeDate := ac_expectedDischargeDate body\<rparr>"

definition admit_writes :: "store \<Rightarrow> ident \<Rightarrow> ident \<Rightarrow> ident \<Rightarrow> admissions_post_body \<Rightarrow> store" where
  "admit_writes s p b d body =
     s\<lparr>beds := map (\<lambda>x. if b_id x = b then occupy p body x else x) (beds s),
       admissions := admissions s @ [admitted s p b d body]\<rparr>"

text \<open>The same for the discharge or transfer transaction of the PUT handler, on the
  admission \<open>a\<close> read before.\<close>

definition closing :: "timestamp \<Rightarrow> admission \<Rightarrow> admission_status \<Rightarrow> admissions_put_body
    \<Rightarrow> admission \<Rightarrow> admission" where
  "closing now a st body x =
     x\<lparr>a_status := st,
       a_dischargeDate := Some (case au_dischargeDate body of Some d \<Rightarrow> d | None \<Rightarrow> now),
       a_notes := js_or (au_notes body) (a_notes a)\<rparr>"

definition discharge_writes :: "timestamp \<Rightarrow> store \<Rightarrow> ident \<Rightarrow> admission \<Rightarrow> admission_status
    \<Rightarrow> admissions_put_body \<Rightarrow> store" where
  "discharge_writes now s i a st body =
     s\<lparr>admissions := map (\<lambda>x. if a_id x = i then closing now a st body x else x) (admissions s),
       beds := map (\<lambda>x. if b_id x = a_bedId a then free_bed x else x) (beds s)\<rparr>"

text \<open>The write of the simple update.\<close>

definition annotated :: "admission \<Rightarrow> admissions_put_body \<Rightarrow> admission \<Rightarrow> admission" where
  "annotated a body x =
     x\<lparr>a_diagnosis := js_or (au_diagnosis body) (a_diagnosis a),
       a_notes := js_or (au_notes body) (a_notes a)\<rparr>"


subsection \<open>Invariants of the bed and admission tables\<close>

definition active_on :: "store \<Rightarrow> ident \<Rightarrow> admission list" where
  "active_on s i = filter (\<lambda>a. a_bedId a = i \<and> a_status a = ACTIVE) (admissions s)"

text \<open>A bed is OCCUPIED exactly when one ACTIVE admission references it.\<close>

definition bed_admission_pairing :: "store \<Rightarrow> bool" where
  "bed_admission_pairing s =
     list_all (\<lambda>b. (b_status b = OCCUPIED) = (length (active_on s (b_id b)) = 1)) (beds s)"

text \<open>The invariant that the coordinating routes keep: the number of ACTIVE admissions
  on a bed is one when it is OCCUPIED and none otherwise, every admission references a
  bed of the table, and admission ids are unique.\<close>

definition coordinated :: "store \<Rightarrow> bool" where
  "coordinated s \<longleftrightarrow>
     (\<forall>b \<in> set (beds s). length (active_on s (b_id b)) = (if b_status b = OCCUPIED then 1 else 0))
     \<and> a_bedId ` set (admissions s) \<subseteq> b_id ` set (beds s)
     \<and> distinct (map a_id (admissions s))"

text \<open>The beds of the table, each with the answer to whether it is OCCUPIED.\<close>

definition occupancy :: "store \<Rightarrow> (ident \<times> bool) list" where
  "occupancy s = map (\<lambda>b. (b_id b, b_status b = OCCUPIED)) (beds s)"

text \<open>The requests to the bed routes that decide on their own whether a bed is
  OCCUPIED: a creation that stores an OCCUPIED bed, and an update after which a bed is
  OCCUPIED that was not, or is no longer OCCUPIED.\<close>

fun overrides_occupancy :: "timestamp \<Rightarrow> store \<Rightarrow> request \<Rightarrow> bool" where
  "overrides_occupancy now s (BedsPost body) =
     (case snd (beds_post s body) of Created b \<Rightarrow> b_status b = OCCUPIED | _ \<Rightarrow> False)"
| "overrides_occupancy now s (BedsPut i body) =
     (occupancy (fst (beds_put now s i body)) \<noteq> occupancy s)"
| "overrides_occupancy now s r = False"

text \<open>The stores reached by requests served one at a time, none of which overrides the
  occupancy of a bed.\<close>

inductive reachable_by_admissions :: "store \<Rightarrow> bool" where
  initial_store: "reachable_by_admissions (initial_store us)"
| coordinating: "reachable_by_admissions s \<Longrightarrow> \<not> overrides_occupancy now s r
    \<Longrightarrow> reachable_by_admissions (handle now s r)"

fun coordinating :: "timestamp \<Rightarrow> store \<Rightarrow> request list \<Rightarrow> bool" where
  "coordinating now s [] = True"
| "coordinating now s (r # rs) =
     (\<not> overrides_occupancy now s r \<and> coordinating now (handle now s r) rs)"

text \<open>No two ACTIVE admissions of one patient.\<close>

definition one_active_admission :: "store \<Rightarrow> bool" where
  "one_active_admission s =
     distinct (map a_patientId (filter (\<lambda>a. a_status a = ACTIVE) (admissions s)))"

subsection \<open>Queue numbers\<close>

text \<open>The queue number as the specification words it: one plus the greatest queue number
  among the appointments of the date that are not cancelled, 0 standing for the greatest
  when there is none; no number for a cancelled appointment.\<close>

definition numbers :: "appointment list \<Rightarrow> int list" where
  "numbers rows = concat (map (\<lambda>a. case ap_queueNumber a of None \<Rightarrow> [] | Some q \<Rightarrow> [q]) rows)"

definition queue_numbers_on :: "store \<Rightarrow> timestamp \<Rightarrow> int list" where
  "queue_numbers_on s d =
     numbers (filter (\<lambda>a. ap_date a = d \<and> ap_status a \<noteq> CANCELLED) (appointments s))"

definition specified_queue_number :: "store \<Rightarrow> appointments_post_body \<Rightarrow> int option" where
  "specified_queue_number s body =
     (if apc_status body = CANCELLED then None
      else (case queue_numbers_on s (apc_date body) of
              [] \<Rightarrow> Some 1
            | q # qs \<Rightarrow> Some (fold max qs q + 1)))"

text \<open>The rounding of the exact percentage, a tie going up.\<close>

definition specified_occupancy_rate :: "nat \<Rightarrow> nat \<Rightarrow> int" where
  "specified_occupancy_rate occupied allBeds =
     (if allBeds > 0 then \<lfloor>(of_nat occupied / of_nat allBeds * 100 + 1 / 2 :: rat)\<rfloor> else 0)"


subsection \<open>Sample data\<close>

text \<open>A doctor as the seed script provisions them, under the subject id of the identity
  provider, and a doctor whose user id is a UUID.\<close>

definition dr_smith :: user where
  "dr_smith = \<lparr>u_id = Other ''user_2NNKm4a9XlUlcF1234567'',
     u_email = ''dr.smith@mediconnect.com'', u_firstName = ''Emily'', u_lastName = ''Smith'',
     u_role = DOCTOR\<rparr>"

definition dr_jones :: user where
  "dr_jones = \<lparr>u_id = Uuid 1, u_email = ''dr.jones@mediconnect.com'', u_firstName = ''Alex'',
     u_lastName = ''Jones'', u_role = DOCTOR\<rparr>"

definition john_doe :: patients_post_body where
  "john_doe = \<lparr>pu_firstName = ''John'', pu_lastName = ''Doe'',
     pu_dateOfBirth = 484963200000, pu_gender = MALE, pu_contactNumber = ''+1234567890'',
     pu_email = None, pu_address = ''123 Main St'', pu_bloodGroup = None,
     pu_allergies = None, pu_medicalHistory = None, pc_mrn = ''MRN0001''\<rparr>"

definition jane_roe :: patients_post_body where
  "jane_roe = \<lparr>pu_firstName = ''Jane'', pu_lastName = ''Roe'',
     pu_dateOfBirth = 653875200000, pu_gender = FEMALE, pu_contactNumber = ''+1987654321'',
     pu_email = None, pu_address = ''456 Oak Ave'', pu_bloodGroup = None,
     pu_allergies = None, pu_medicalHistory = None, pc_mrn = ''MRN0002''\<rparr>"

definition bed_a101 :: beds_post_body where
  "bed_a101 = \<lparr>bc_bedNumber = ''A-101'', bc_ward = WARD_GENERAL, bc_status = None,
     bc_notes = None\<rparr>"

definition bed_a102 :: beds_post_body where
  "bed_a102 = \<lparr>bc_bedNumber = ''A-102'', bc_ward = WARD_GENERAL, bc_status = None,
     bc_notes = None\<rparr>"

text \<open>The admission of patient \<open>p\<close> to bed \<open>b\<close> under the doctor with the user id \<open>d\<close>.\<close>

definition admission_of :: "ident \<Rightarrow> ident \<Rightarrow> text_id \<Rightarrow> admissions_post_body" where
  "admission_of p b d = \<lparr>ac_patientId = Uuid p, ac_bedId = Uuid b, ac_doctorId = d,
     ac_admissionDate = 1745280000000, ac_expectedDischargeDate = None,
     ac_diagnosis = Some ''Pneumonia'', ac_notes = None\<rparr>"

definition admit_john :: admissions_post_body where
  "admit_john = admission_of 1 1 (Uuid 1)"

text \<open>A ward with one patient and one free bed, and the same ward after the admission.\<close>

definition ward :: store where
  "ward = run 0 (initial_store [dr_jones, dr_smith]) [PatientsPost john_doe, BedsPost bed_a101]"

definition ward_admitted :: store where
  "ward_admitted = run 0 ward [AdmissionsPost admit_john]"

text \<open>The ward with a second patient and a second free bed; both patients admitted, each
  to a bed, and a further admission of the first patient refused.\<close>

definition two_beds :: store where
  "two_beds = run 0 ward [PatientsPost jane_roe, BedsPost bed_a102]"

definition two_admitted :: store where
  "two_admitted = run 0 two_beds
     [AdmissionsPost admit_john, AdmissionsPost (admission_of 2 2 (Uuid 1)),
      AdmissionsPost (admission_of 1 2 (Uuid 1))]"

text \<open>Two admission requests that overlap: the first handler makes its four reads and
  stands at its transaction, the second one does the same, then the two transactions
  run. The requests admit one patient to two beds, or two patients to one bed.\<close>

definition after_the_reads :: "nat list" where
  "after_the_reads = [0, 0, 0, 0, 1, 1, 1, 1, 0, 1]"

definition admitted_twice :: store where
  "admitted_twice = overlapped 0 two_beds
     [AdmissionsPost admit_john, AdmissionsPost (admission_of 1 2 (Uuid 1))] after_the_reads"

definition double_booked :: store where
  "double_booked = overlapped 0 two_beds
     [AdmissionsPost admit_john, AdmissionsPost (admission_of 2 1 (Uuid 1))] after_the_reads"


definition discharge :: admissions_put_body where
  "discharge = \<lparr>au_status = Some DISCHARGED, au_dischargeDate = None, au_diagnosis = None,
     au_notes = Some ''recovered''\<rparr>"


text \<open>A bed update that marks the free bed of the ward OCCUPIED by the patient, and one
  that takes the free bed out of service.\<close>

definition occupy_directly :: beds_put_body where
  "occupy_directly = \<lparr>bu_status = Some OCCUPIED, bu_patientId = Some (Uuid 1),
     bu_admissionDate = None, bu_expectedDischargeDate = None, bu_notes = None\<rparr>"

definition occupied_directly :: store where
  "occupied_directly = run 5 ward [BedsPut 1 occupy_directly]"

definition out_of_service :: beds_put_body where
  "out_of_service = \<lparr>bu_status = Some MAINTENANCE, bu_patientId = None,
     bu_admissionDate = None, bu_expectedDischargeDate = None, bu_notes = Some ''repair''\<rparr>"

text \<open>The ward after the admission, a second bed that is created and taken out of
  service, and the discharge of the patient.\<close>

definition ward_discharged :: store where
  "ward_discharged = run 9 ward_admitted
     [BedsPost bed_a102, BedsPut 2 out_of_service, AdmissionsPut 1 discharge]"


definition visit :: "appointment_status \<Rightarrow> appointments_post_body" where
  "visit st = \<lparr>apc_patientId = Uuid 1, apc_doctorId = Uuid 1, apc_date = 1745539200000,
     apc_time = ''09:30'', apc_status = st, apc_type = GENERAL, apc_notes = None\<rparr>"

definition set_status :: "appointment_status \<Rightarrow> appointments_put_body" where
  "set_status st = \<lparr>apu_status = Some st, apu_notes = None\<rparr>"

text \<open>A cancelled visit and a scheduled one, then the cancelled one is rescheduled.\<close>

definition rescheduled :: store where
  "rescheduled = run 0 ward
     [AppointmentsPost (visit CANCELLED), AppointmentsPost (visit SCHEDULED),
      AppointmentsPut 1 (set_status SCHEDULED)]"

text \<open>A scheduled visit that is cancelled afterwards.\<close>

definition cancelled_later :: store where
  "cancelled_later = run 0 ward
     [AppointmentsPost (visit SCHEDULED), AppointmentsPut 1 (set_status CANCELLED)]"

text \<open>Forty beds, the first twenty-three of them occupied.\<close>

definition forty_beds :: store where
  "forty_beds = empty_store\<lparr>beds :=
     map (\<lambda>n. \<lparr>b_id = n, b_bedNumber = replicate n CHR ''I'', b_ward = WARD_GENERAL,
               b_status = (if n \<le> 23 then OCCUPIED else AVAILABLE),
               b_patientId = None, b_admissionDate = None, b_expectedDischargeDate = None,
               b_notes = None\<rparr>) [1 ..< 41]\<rparr>"






section \<open>Proofs\<close>

subsection \<open>Lists and identifiers\<close>

lemma fold_max_ge: "(a::nat) \<le> fold max xs a"
  by (induction xs arbitrary: a) (auto intro: order_trans max.cobounded2)

lemma fold_max_mem: "x \<in> set xs \<Longrightarrow> (x::nat) \<le> fold max xs a"
proof (induction xs arbitrary: a)
  case Nil then show ?case by simp
next
  case (Cons y ys)
  show ?case
  proof (cases "x = y")
    case True
    have "y \<le> max y a" by simp
    also have "\<dots> \<le> fold max ys (max y a)" by (rule fold_max_ge)
    finally show ?thesis using True by simp
  next
    case False
    with Cons show ?thesis by simp
  qed
qed

lemma fresh_id_notin: "fresh_id ids \<notin> set ids"
proof
  assume "fresh_id ids \<in> set ids"
  then have "fresh_id ids \<le> fold max ids 0" by (rule fold_max_mem)
  then show False by (simp add: fresh_id_def)
qed

lemma find_map_upd:
  assumes "\<And>x. key (f x) = key x"
  shows "find (\<lambda>x. key x = i) (map (\<lambda>x. if key x = i then f x else x) xs)
         = map_option f (find (\<lambda>x. key x = i) xs)"
  using assms by (induction xs) auto


lemma find_append_old:
  "find P xs = Some x \<Longrightarrow> find P (xs @ ys) = Some x"
  by (induction xs) (auto split: if_splits)



lemma find_None_filter: "find P xs = None \<longleftrightarrow> filter P xs = []"
  by (induction xs) auto

lemma find_Some_key: "find (\<lambda>x. key x = i) xs = Some a \<Longrightarrow> key a = i \<and> a \<in> set xs"
  by (induction xs) (auto split: if_splits)

subsection \<open>Processes\<close>

lemma run_proc_Await: "run_proc (Await f) s = (case f s of (s1, rest) \<Rightarrow> run_proc rest s1)"
  by (cases "f s") simp

lemma run_query [simp]: "run_proc (query q k) s = run_proc (k (q s)) s"
  by (simp add: query_def)

lemma run_command [simp]:
  "run_proc (command w k) s
   = (case w s of Inl e \<Rightarrow> (s, ServerError e) | Inr (s1, x) \<Rightarrow> run_proc (k x) s1)"
  by (simp add: command_def split: sum.split)

lemma run_map_proc: "run_proc (map_proc g p) s = map_prod id (map_response g) (run_proc p s)"
proof (induction p arbitrary: s)
  case (Return r)
  show ?case by simp
next
  case (Await f)
  obtain s1 rest where f: "f s = (s1, rest)" by (cases "f s")
  then have "rest \<in> Basic_BNFs.snds (f s)" by simp
  then have "run_proc (map_proc g rest) s1 = map_prod id (map_response g) (run_proc rest s1)"
    by (rule Await.IH [OF rangeI])
  with f show ?case by (simp add: id_def)
qed

lemma fst_run_task: "fst (run_proc (map_proc g p) s) = fst (run_proc p s)"
  by (simp add: run_map_proc)

lemma handle_simps [simp]:
  "handle now s (PatientsPost pc) = fst (patients_post s pc)"
  "handle now s (PatientsPut i pu) = fst (patients_put s i pu)"
  "handle now s (PatientsDelete i) = fst (patients_delete s i)"
  "handle now s (AppointmentsPost apc) = fst (appointments_post s apc)"
  "handle now s (AppointmentsPut i apu) = fst (appointments_put s i apu)"
  "handle now s (AppointmentsDelete i) = fst (appointments_delete s i)"
  "handle now s (BedsPost bc) = fst (beds_post s bc)"
  "handle now s (BedsPut i bu) = fst (beds_put now s i bu)"
  "handle now s (BedsDelete i) = fst (beds_delete s i)"
  "handle now s (AdmissionsPost ac) = fst (admissions_post s ac)"
  "handle now s (AdmissionsPut i au) = fst (admissions_put now s i au)"
  "handle now s (AdmissionsDelete i) = fst (admissions_delete s i)"
  "handle now s (InventoryPost ic) = fst (inventory_post s ic)"
  "handle now s (InventoryPut i iu) = fst (inventory_put s i iu)"
  "handle now s (InventoryDelete i) = fst (inventory_delete s i)"
  by (simp_all add: handle_def fst_run_task patients_post_def patients_put_def patients_delete_def
      appointments_post_def appointments_put_def appointments_delete_def beds_post_def
      beds_put_def beds_delete_def admissions_post_def admissions_put_def admissions_delete_def
      inventory_post_def inventory_put_def inventory_delete_def)

lemma admit_eq:
  "run_proc (admit p b d body) s =
     (case find_patient s p of
        None \<Rightarrow> (s, BadRequest ''Patient not found'')
      | Some patient \<Rightarrow>
     (case find_bed s b of
        None \<Rightarrow> (s, BadRequest ''Bed not found'')
      | Some bed \<Rightarrow>
     if b_status bed \<noteq> AVAILABLE then (s, BadRequest ''Bed is not available'')
     else
     (case find_user s (Uuid d) of
        None \<Rightarrow> (s, BadRequest ''Valid doctor not found'')
      | Some doctor \<Rightarrow>
     if u_role doctor \<noteq> DOCTOR then (s, BadRequest ''Valid doctor not found'')
     else
     (case find (\<lambda>a. a_patientId a = p \<and> a_status a = ACTIVE) (admissions s) of
        Some activeAdmission \<Rightarrow> (s, BadRequest ''Patient already has an active admission'')
      | None \<Rightarrow>
     (case admission_transaction s p b d body of
        Inl e \<Rightarrow> (s, ServerError e)
      | Inr (s2, newAdmission) \<Rightarrow> (s2, Created newAdmission))))))"
  by (simp add: admit_def split: option.split sum.split)

lemma admissions_post_valid:
  "ac_patientId body = Uuid p \<Longrightarrow> ac_bedId body = Uuid b \<Longrightarrow> ac_doctorId body = Uuid d
   \<Longrightarrow> admissions_post s body = run_proc (admit p b d body) s"
  by (simp add: admissions_post_def admissions_post_handler_def)

lemma admissions_post_invalid:
  "admissions_post_errors body \<noteq> []
   \<Longrightarrow> admissions_post s body = (s, ValidationErrors (admissions_post_errors body))"
  by (auto simp add: admissions_post_def admissions_post_handler_def admissions_post_errors_def
      split: text_id.split if_splits)

lemma admissions_post_errors_Nil:
  "admissions_post_errors body = []
   \<longleftrightarrow> (\<exists>p b d. ac_patientId body = Uuid p \<and> ac_bedId body = Uuid b \<and> ac_doctorId body = Uuid d)"
  by (cases "ac_patientId body"; cases "ac_bedId body"; cases "ac_doctorId body")
     (simp_all add: admissions_post_errors_def)

lemma admissions_put_eq:
  "admissions_put now s i body =
     (case find_admission s i of
        None \<Rightarrow> (s, NotFound ''Admission not found'')
      | Some admission \<Rightarrow>
          (case au_status body of
             None \<Rightarrow> run_proc (simple_update i admission body) s
           | Some st \<Rightarrow>
               if st \<noteq> ACTIVE \<and> a_status admission = ACTIVE
               then (case discharge_or_transfer now s i admission st body of
                       Inl e \<Rightarrow> (s, ServerError e)
                     | Inr (s2, updated) \<Rightarrow> (s2, Ok updated))
               else run_proc (simple_update i admission body) s))"
  by (simp add: admissions_put_def admissions_put_handler_def split: option.split sum.split)

lemma simple_update_eq:
  "run_proc (simple_update i admission body) s =
     (case admission_update s i
             (\<lambda>a. a\<lparr>a_diagnosis := js_or (au_diagnosis body) (a_diagnosis admission),
                    a_notes := js_or (au_notes body) (a_notes admission)\<rparr>) of
        Inl e \<Rightarrow> (s, ServerError e)
      | Inr (s1, updatedAdmission) \<Rightarrow> (s1, Ok updatedAdmission))"
  by (simp add: simple_update_def split: sum.split)

lemma admissions_delete_eq:
  "admissions_delete s i =
     (case find_admission s i of
        None \<Rightarrow> (s, NotFound ''Admission not found'')
      | Some admission \<Rightarrow>
          (case (if a_status admission = ACTIVE then free_and_delete s i admission
                 else admission_delete s i) of
             Inl e \<Rightarrow> (s, ServerError e)
           | Inr (s1, deleted) \<Rightarrow> (s1, Message ''Admission deleted successfully'')))"
  by (simp add: admissions_delete_def admissions_delete_handler_def split: option.split sum.split)

subsection \<open>Overlapping requests\<close>

lemma serving_run_proc:
  "serving s (ts @ [p]) \<Longrightarrow> \<exists>r. serving (fst (run_proc p s)) (ts @ [Return r])"
proof (induction p arbitrary: s)
  case (Return r)
  then show ?case by auto
next
  case (Await f)
  obtain s1 rest where f: "f s = (s1, rest)" by (cases "f s")
  have "serving (fst (f s)) ((ts @ [Await f])[length ts := snd (f s)])"
    by (rule serving.resumes [OF Await.prems]) simp_all
  with f have "serving s1 (ts @ [rest])" by simp
  moreover from f have "rest \<in> Basic_BNFs.snds (f s)" by simp
  ultimately have "\<exists>r. serving (fst (run_proc rest s1)) (ts @ [Return r])"
    by (rule Await.IH [OF rangeI, rotated])
  with f show ?case by simp
qed

lemma serving_handle: "serving s ts \<Longrightarrow> \<exists>ts1. serving (handle now s r) ts1"
proof -
  assume "serving s ts"
  then have "serving s (ts @ [task now r])" by (rule serving.arrives)
  then have "\<exists>x. serving (fst (run_proc (task now r) s)) (ts @ [Return x])"
    by (rule serving_run_proc)
  then show ?thesis by (auto simp add: handle_def)
qed

lemma reachable_handle: "reachable s \<Longrightarrow> reachable (handle now s r)"
  unfolding reachable_def using serving_handle by blast

lemma reachable_initial: "reachable (initial_store us)"
  unfolding reachable_def using serving.starts by blast

lemma reachable_in_turn_reachable: "reachable_in_turn s \<Longrightarrow> reachable s"
  by (induction rule: reachable_in_turn.induct) (simp_all add: reachable_initial reachable_handle)

lemma serving_arrivals: "serving s ts \<Longrightarrow> serving s (ts @ map (task now) rs)"
proof (induction rs arbitrary: ts)
  case Nil
  then show ?case by simp
next
  case (Cons r rs)
  from Cons.prems have "serving s (ts @ [task now r])" by (rule serving.arrives)
  then have "serving s ((ts @ [task now r]) @ map (task now) rs)" by (rule Cons.IH)
  then show ?case by simp
qed

lemma serving_interleave:
  "serving s (ts0 @ ts)
   \<Longrightarrow> serving (fst (interleave order s ts)) (ts0 @ snd (interleave order s ts))"
proof (induction order arbitrary: s ts)
  case Nil
  then show ?case by simp
next
  case (Cons i order)
  show ?case
  proof (cases "i < length ts")
    case False
    with Cons show ?thesis by simp
  next
    case True
    obtain s1 t where r: "resume (ts ! i) s = (s1, t)" by (cases "resume (ts ! i) s")
    have "serving s1 (ts0 @ ts[i := t])"
    proof (cases "ts ! i")
      case (Return x)
      with r have "s1 = s" "t = ts ! i" by simp_all
      with Cons.prems show ?thesis by simp
    next
      case (Await f)
      from True have len: "length ts0 + i < length (ts0 @ ts)" by simp
      from Await have nth: "(ts0 @ ts) ! (length ts0 + i) = Await f" by simp
      have "serving (fst (f s)) ((ts0 @ ts)[length ts0 + i := snd (f s)])"
        by (rule serving.resumes [OF Cons.prems len nth])
      with r Await show ?thesis by (simp add: list_update_append)
    qed
    then have "serving (fst (interleave order s1 (ts[i := t])))
        (ts0 @ snd (interleave order s1 (ts[i := t])))" by (rule Cons.IH)
    with True r show ?thesis by simp
  qed
qed

lemma reachable_overlapped: "reachable s \<Longrightarrow> reachable (overlapped now s rs order)"
proof -
  assume "reachable s"
  then obtain ts where "serving s ts" by (auto simp add: reachable_def)
  then have "serving s (ts @ map (task now) rs)" by (rule serving_arrivals)
  then have "serving (fst (interleave order s (map (task now) rs)))
      (ts @ snd (interleave order s (map (task now) rs)))" by (rule serving_interleave)
  then show ?thesis by (auto simp add: reachable_def overlapped_def)
qed

lemma reachable_in_turn_run: "reachable_in_turn s \<Longrightarrow> reachable_in_turn (run now s rs)"
  unfolding run_def
  by (induction rs arbitrary: s) (simp_all add: reachable_in_turn.request)

lemma reachable_run: "reachable s \<Longrightarrow> reachable (run now s rs)"
  unfolding run_def
  by (induction rs arbitrary: s) (simp_all add: reachable_handle)

subsection \<open>Admission\<close>

lemma find_bed_admissions_upd [simp]: "find_bed (s\<lparr>admissions := xs\<rparr>) i = find_bed s i"
  by (simp add: find_bed_def)

lemma find_patient_beds_upd [simp]: "find_patient (s\<lparr>beds := xs\<rparr>) i = find_patient s i"
  by (simp add: find_patient_def)

lemma find_user_beds_upd [simp]: "find_user (s\<lparr>beds := xs\<rparr>) i = find_user s i"
  by (simp add: find_user_def)

text \<open>The transaction of the admission POST on any store: both writes when the bed,
  the patient and the doctor are there, else no write.\<close>

lemma admission_transaction_result:
  "admission_transaction s p b d body =
     (if find_bed s b = None then Inl RecordNotFound
      else if find_patient s p = None \<or> find_user s (Uuid d) = None then Inl ForeignKeyViolation
      else Inr (admit_writes s p b d body, admitted s p b d body))"
proof (cases "find_bed s b")
  case None
  then show ?thesis by (simp add: admission_transaction_def bed_update_def)
next
  case (Some bed)
  let ?s1 = "s\<lparr>beds := map (\<lambda>x. if b_id x = b then occupy p body x else x) (beds s)\<rparr>"
  have fb: "find_bed ?s1 b = Some (occupy p body bed)"
    using Some by (simp add: find_bed_def find_map_upd [where key = b_id] occupy_def)
  show ?thesis
  proof (cases "find_patient s p = None")
    case True
    with Some show ?thesis
      by (auto simp add: admission_transaction_def bed_update_def admission_create_def
          split: sum.split)
  next
    case False
    then obtain patient where pt: "find_patient s p = Some patient" by auto
    with Some have bu: "bed_update s b (occupy p body) = Inr (?s1, occupy p body bed)"
      by (simp add: bed_update_def occupy_def)
    with Some pt fb show ?thesis
      by (simp add: admission_transaction_def occupy_def [abs_def] admission_create_def
          admit_writes_def admitted_def Let_def)
  qed
qed


text \<open>An admission request that is served in one piece either makes both writes, for a
  patient without an ACTIVE admission and a bed that is AVAILABLE, or leaves the store
  as it is and creates nothing.\<close>

lemma admissions_post_cases:
  "(\<exists>p b d. ac_patientId body = Uuid p \<and> ac_bedId body = Uuid b \<and> ac_doctorId body = Uuid d
      \<and> admissions_post s body = (admit_writes s p b d body, Created (admitted s p b d body))
      \<and> find (\<lambda>a. a_patientId a = p \<and> a_status a = ACTIVE) (admissions s) = None
      \<and> map_option b_status (find_bed s b) = Some AVAILABLE)
   \<or> fst (admissions_post s body) = s \<and> (\<forall>a. snd (admissions_post s body) \<noteq> Created a)"
proof (cases "admissions_post_errors body = []")
  case False
  then show ?thesis by (simp add: admissions_post_invalid)
next
  case True
  then obtain p b d where ids: "ac_patientId body = Uuid p" "ac_bedId body = Uuid b"
      "ac_doctorId body = Uuid d"
    by (auto simp add: admissions_post_errors_Nil)
  then have "admissions_post s body = run_proc (admit p b d body) s"
    by (rule admissions_post_valid)
  then have "admissions_post s body = (admit_writes s p b d body, Created (admitted s p b d body))
      \<and> find (\<lambda>a. a_patientId a = p \<and> a_status a = ACTIVE) (admissions s) = None
      \<and> map_option b_status (find_bed s b) = Some AVAILABLE
    \<or> fst (admissions_post s body) = s \<and> (\<forall>a. snd (admissions_post s body) \<noteq> Created a)"
    by (simp add: admit_eq admission_transaction_result split: option.split)
  with ids show ?thesis by blast
qed




subsection \<open>Discharge, transfer and simple update\<close>

lemma discharge_success:
  assumes "find_admission s i = Some a" and "a_status a = ACTIVE"
    and "au_status body = Some st" and "st \<noteq> ACTIVE" and "find_bed s (a_bedId a) = Some b"
  shows "admissions_put now s i body
         = (discharge_writes now s i a st body, Ok (closing now a st body a))"
  using assms
  by (simp add: admissions_put_eq discharge_or_transfer_def admission_update_def
      bed_update_def free_bed_def discharge_writes_def closing_def [abs_def])

lemma discharge_rollback:
  assumes "find_admission s i = Some a" and "a_status a = ACTIVE"
    and "au_status body = Some st" and "st \<noteq> ACTIVE" and "find_bed s (a_bedId a) = None"
  shows "admissions_put now s i body = (s, ServerError RecordNotFound)"
  using assms
  by (simp add: admissions_put_eq discharge_or_transfer_def admission_update_def
      bed_update_def)

lemma find_admission_discharge_writes:
  "find_admission s i = Some a
   \<Longrightarrow> find_admission (discharge_writes now s i a st body) i = Some (closing now a st body a)"
  by (simp add: discharge_writes_def find_admission_def find_map_upd [where key = a_id]
      closing_def)

lemma find_bed_discharge_writes:
  "find_bed s j = Some b \<Longrightarrow> j = a_bedId a
   \<Longrightarrow> find_bed (discharge_writes now s i a st body) j = Some (free_bed b)"
  by (simp add: discharge_writes_def find_bed_def find_map_upd [where key = b_id] free_bed_def)

lemma simple_update_result:
  assumes "find_admission s i = Some a"
    and "a_status a \<noteq> ACTIVE \<or> au_status body = Some ACTIVE \<or> au_status body = None"
  shows "admissions_put now s i body
         = (s\<lparr>admissions := map (\<lambda>x. if a_id x = i then annotated a body x else x) (admissions s)\<rparr>,
            Ok (annotated a body a))"
  using assms
  by (auto simp add: admissions_put_eq simple_update_eq admission_update_def
      annotated_def [abs_def] split: option.split)


subsection \<open>Inventory\<close>

lemma inventory_put_eq:
  "inventory_put s i body =
     (if inventory_put_errors body \<noteq> [] then (s, ValidationErrors (inventory_put_errors body))
      else case find_item s i of
        None \<Rightarrow> (s, NotFound ''Inventory item not found'')
      | Some item \<Rightarrow>
          if \<not> int4 (i_quantity (inventory_put_data body item item))
             \<or> \<not> int4 (i_reorderLevel (inventory_put_data body item item))
          then (s, ServerError ValueOutOfRange)
          else (s\<lparr>inventory := map (\<lambda>x. if i_id x = i then inventory_put_data body item x else x)
                                   (inventory s)\<rparr>,
                Ok (inventory_put_data body item item)))"
  by (simp add: inventory_put_def inventory_put_handler_def item_update_def split: option.split)



text \<open>A patient that has an ACTIVE admission is not admitted again.\<close>

lemma admissions_post_rejects_active:
  assumes "ac_patientId body = Uuid p"
    and "find (\<lambda>a. a_patientId a = p \<and> a_status a = ACTIVE) (admissions s) \<noteq> None"
  shows "fst (admissions_post s body) = s \<and> (\<forall>a. snd (admissions_post s body) \<noteq> Created a)"
  using assms admissions_post_cases [of body s] by auto

subsection \<open>What each route leaves alone\<close>

lemma patients_post_frame:
  "admissions (fst (patients_post s body)) = admissions s
   \<and> beds (fst (patients_post s body)) = beds s"
  by (simp add: patients_post_def patients_post_handler_def patient_create_def Let_def)

lemma patients_put_frame:
  "admissions (fst (patients_put s i body)) = admissions s
   \<and> beds (fst (patients_put s i body)) = beds s"
  by (simp add: patients_put_def patients_put_handler_def patient_update_def
      split: option.split)

lemma patients_delete_frame:
  "admissions (fst (patients_delete s i)) = admissions s
   \<and> map (\<lambda>b. (b_id b, b_status b)) (beds (fst (patients_delete s i)))
     = map (\<lambda>b. (b_id b, b_status b)) (beds s)"
  by (auto simp add: patients_delete_def patients_delete_handler_def patient_delete_def
      split: option.split)

lemma appointments_post_frame:
  "admissions (fst (appointments_post s body)) = admissions s
   \<and> beds (fst (appointments_post s body)) = beds s"
  by (simp add: appointments_post_def appointments_post_handler_def book_def
      appointment_create_def Let_def split: text_id.split bool.split)

lemma appointments_put_frame:
  "admissions (fst (appointments_put s i body)) = admissions s
   \<and> beds (fst (appointments_put s i body)) = beds s"
  by (simp add: appointments_put_def appointments_put_handler_def appointment_update_def
      split: option.split)

lemma appointments_delete_frame:
  "admissions (fst (appointments_delete s i)) = admissions s
   \<and> beds (fst (appointments_delete s i)) = beds s"
  by (simp add: appointments_delete_def appointments_delete_handler_def appointment_delete_def
      split: option.split)

lemma inventory_post_frame:
  "admissions (fst (inventory_post s body)) = admissions s
   \<and> beds (fst (inventory_post s body)) = beds s"
  by (simp add: inventory_post_def inventory_post_handler_def item_create_def Let_def)

lemma inventory_put_frame:
  "admissions (fst (inventory_put s i body)) = admissions s
   \<and> beds (fst (inventory_put s i body)) = beds s"
  by (simp add: inventory_put_eq split: option.split)

lemma inventory_delete_frame:
  "admissions (fst (inventory_delete s i)) = admissions s
   \<and> beds (fst (inventory_delete s i)) = beds s"
  by (simp add: inventory_delete_def inventory_delete_handler_def item_delete_def
      split: option.split)

lemma beds_post_eq:
  "beds_post s body =
     (if bc_bedNumber body = [] then (s, ValidationErrors [''Bed number is required''])
      else case find (\<lambda>b. b_bedNumber b = bc_bedNumber body) (beds s) of
        Some existingBed \<Rightarrow> (s, BadRequest ''Bed number already exists'')
      | None \<Rightarrow>
          (let newBed = \<lparr>b_id = fresh_id (map b_id (beds s)), b_bedNumber = bc_bedNumber body,
                          b_ward = bc_ward body,
                          b_status = (case bc_status body of None \<Rightarrow> AVAILABLE | Some st \<Rightarrow> st),
                          b_patientId = None, b_admissionDate = None,
                          b_expectedDischargeDate = None, b_notes = bc_notes body\<rparr>
           in (s\<lparr>beds := beds s @ [newBed]\<rparr>, Created newBed)))"
  by (simp add: beds_post_def beds_post_handler_def required_def bed_create_def Let_def
      split: option.split)

lemma beds_post_admissions: "admissions (fst (beds_post s body)) = admissions s"
  by (simp add: beds_post_eq Let_def split: option.split)

lemma bed_update_admissions:
  "bed_update s i f = Inr (s1, b) \<Longrightarrow> admissions s1 = admissions s"
  by (auto simp add: bed_update_def split: option.splits if_splits)

lemma beds_put_association_admissions:
  "admissions (fst (run_proc (beds_put_association now i body) s)) = admissions s"
  by (auto simp add: beds_put_association_def bed_update_admissions
      split: option.split sum.split)

lemma beds_put_admissions: "admissions (fst (beds_put now s i body)) = admissions s"
  by (auto simp add: beds_put_def beds_put_handler_def beds_put_association_admissions
      bed_update_admissions split: option.split sum.split)

lemma beds_delete_admissions: "admissions (fst (beds_delete s i)) = admissions s"
  by (auto simp add: beds_delete_def beds_delete_handler_def bed_delete_def split: option.split)

subsection \<open>The admissions table under the admission routes\<close>

lemma admissions_put_table:
  "\<exists>g. admissions (fst (admissions_put now s i body)) = map g (admissions s)
       \<and> (\<forall>x. a_patientId (g x) = a_patientId x \<and> a_bedId (g x) = a_bedId x
              \<and> a_id (g x) = a_id x
              \<and> (a_status (g x) = ACTIVE \<longrightarrow> a_status x = ACTIVE))"
proof (cases "find_admission s i")
  case None
  then have "admissions (fst (admissions_put now s i body)) = map (\<lambda>x. x) (admissions s)"
    by (simp add: admissions_put_eq)
  then show ?thesis by blast
next
  case (Some a)
  show ?thesis
  proof (cases "\<exists>st. au_status body = Some st \<and> st \<noteq> ACTIVE \<and> a_status a = ACTIVE")
    case True
    then obtain st where st: "au_status body = Some st" "st \<noteq> ACTIVE" "a_status a = ACTIVE"
      by blast
    show ?thesis
    proof (cases "find_bed s (a_bedId a)")
      case None
      with Some st have "admissions (fst (admissions_put now s i body)) = map (\<lambda>x. x) (admissions s)"
        by (simp add: discharge_rollback)
      then show ?thesis by blast
    next
      case (Some b)
      with \<open>find_admission s i = Some a\<close> st
      have "admissions (fst (admissions_put now s i body))
            = map (\<lambda>x. if a_id x = i then closing now a st body x else x) (admissions s)"
        by (simp add: discharge_success discharge_writes_def)
      moreover have "\<forall>x. a_patientId (if a_id x = i then closing now a st body x else x) = a_patientId x
          \<and> a_bedId (if a_id x = i then closing now a st body x else x) = a_bedId x
          \<and> a_id (if a_id x = i then closing now a st body x else x) = a_id x
          \<and> (a_status (if a_id x = i then closing now a st body x else x) = ACTIVE
               \<longrightarrow> a_status x = ACTIVE)"
        using st(2) by (simp add: closing_def)
      ultimately show ?thesis by blast
    qed
  next
    case False
    then have "a_status a \<noteq> ACTIVE \<or> au_status body = Some ACTIVE \<or> au_status body = None"
      by (cases "au_status body") auto
    with Some
    have "admissions (fst (admissions_put now s i body))
          = map (\<lambda>x. if a_id x = i then annotated a body x else x) (admissions s)"
      by (simp add: simple_update_result)
    moreover have "\<forall>x. a_patientId (if a_id x = i then annotated a body x else x) = a_patientId x
        \<and> a_bedId (if a_id x = i then annotated a body x else x) = a_bedId x
        \<and> a_id (if a_id x = i then annotated a body x else x) = a_id x
        \<and> (a_status (if a_id x = i then annotated a body x else x) = ACTIVE
             \<longrightarrow> a_status x = ACTIVE)"
      by (simp add: annotated_def)
    ultimately show ?thesis by blast
  qed
qed

lemma admissions_delete_table:
  "admissions (fst (admissions_delete s i)) = admissions s
   \<or> admissions (fst (admissions_delete s i)) = filter (\<lambda>x. a_id x \<noteq> i) (admissions s)"
  by (auto simp add: admissions_delete_eq free_and_delete_def admission_delete_def bed_update_def
      find_admission_def split: option.split sum.split)

subsection \<open>One ACTIVE admission for a patient\<close>

lemma distinct_map_filter_map:
  assumes "distinct (map k (filter P xs))"
    and "\<And>x. k (g x) = k x" and "\<And>x. P (g x) \<Longrightarrow> P x"
  shows "distinct (map k (filter P (map g xs)))"
  using assms(1)
proof (induction xs)
  case Nil
  then show ?case by simp
next
  case (Cons x xs)
  have sub: "k ` set (filter P (map g xs)) \<subseteq> k ` set (filter P xs)"
    using assms(2,3) by force
  show ?case
  proof (cases "P (g x)")
    case True
    then have "P x" by (rule assms(3))
    with Cons.prems have "k x \<notin> k ` set (filter P xs)" and "distinct (map k (filter P xs))"
      by simp_all
    with sub Cons.IH True show ?thesis by (auto simp add: assms(2))
  next
    case False
    from Cons.prems have "distinct (map k (filter P xs))" by (simp split: if_splits)
    with Cons.IH False show ?thesis by simp
  qed
qed

lemma one_active_admissions_post:
  assumes "one_active_admission s"
  shows "one_active_admission (fst (admissions_post s body))"
proof -
  from admissions_post_cases [of body s] show ?thesis
  proof
    assume "\<exists>p b d. ac_patientId body = Uuid p \<and> ac_bedId body = Uuid b
      \<and> ac_doctorId body = Uuid d
      \<and> admissions_post s body = (admit_writes s p b d body, Created (admitted s p b d body))
      \<and> find (\<lambda>a. a_patientId a = p \<and> a_status a = ACTIVE) (admissions s) = None
      \<and> map_option b_status (find_bed s b) = Some AVAILABLE"
    then obtain p b d where
      a: "admissions_post s body = (admit_writes s p b d body, Created (admitted s p b d body))"
        "find (\<lambda>a. a_patientId a = p \<and> a_status a = ACTIVE) (admissions s) = None"
      by blast
    then have "filter (\<lambda>a. a_patientId a = p \<and> a_status a = ACTIVE) (admissions s) = []"
      by (simp add: find_None_filter)
    then have "p \<notin> a_patientId ` set (filter (\<lambda>a. a_status a = ACTIVE) (admissions s))"
      by (auto simp add: filter_empty_conv)
    with assms a show ?thesis
      by (simp add: one_active_admission_def admit_writes_def admitted_def)
  next
    assume "fst (admissions_post s body) = s \<and> (\<forall>a. snd (admissions_post s body) \<noteq> Created a)"
    with assms show ?thesis by simp
  qed
qed

lemma one_active_admissions_put:
  assumes "one_active_admission s"
  shows "one_active_admission (fst (admissions_put now s i body))"
proof -
  from admissions_put_table [of now s i body] obtain g where
    g: "admissions (fst (admissions_put now s i body)) = map g (admissions s)"
      "\<And>x. a_patientId (g x) = a_patientId x"
      "\<And>x. a_status (g x) = ACTIVE \<Longrightarrow> a_status x = ACTIVE"
    by blast
  from assms have "distinct (map a_patientId (filter (\<lambda>a. a_status a = ACTIVE) (admissions s)))"
    by (simp add: one_active_admission_def)
  then have "distinct (map a_patientId (filter (\<lambda>a. a_status a = ACTIVE) (map g (admissions s))))"
    by (rule distinct_map_filter_map) (simp_all add: g(2) g(3))
  then show ?thesis by (simp add: one_active_admission_def g(1))
qed

lemma one_active_admissions_delete:
  assumes "one_active_admission s"
  shows "one_active_admission (fst (admissions_delete s i))"
proof -
  have "distinct (map a_patientId (filter (\<lambda>x. a_id x \<noteq> i)
          (filter (\<lambda>a. a_status a = ACTIVE) (admissions s))))"
    using assms unfolding one_active_admission_def by (rule distinct_map_filter)
  then have "distinct (map a_patientId (filter (\<lambda>a. a_status a = ACTIVE)
          (filter (\<lambda>x. a_id x \<noteq> i) (admissions s))))"
    by (simp add: conj_commute)
  with assms admissions_delete_table [of s i] show ?thesis
    by (auto simp add: one_active_admission_def)
qed

lemma one_active_handle:
  assumes "one_active_admission s"
  shows "one_active_admission (handle now s r)"
proof (cases r)
  case (AdmissionsPost body)
  with assms show ?thesis by (simp add: one_active_admissions_post)
next
  case (AdmissionsPut i body)
  with assms show ?thesis by (simp add: one_active_admissions_put)
next
  case (AdmissionsDelete i)
  with assms show ?thesis by (simp add: one_active_admissions_delete)
qed (use assms in \<open>simp_all add: one_active_admission_def patients_post_frame patients_put_frame
      patients_delete_frame appointments_post_frame appointments_put_frame
      appointments_delete_frame inventory_post_frame inventory_put_frame inventory_delete_frame
      beds_post_admissions beds_put_admissions beds_delete_admissions\<close>)

lemma one_active_initial: "one_active_admission (initial_store us)"
  by (simp add: one_active_admission_def initial_store_def empty_store_def)

lemma reachable_in_turn_one_active: "reachable_in_turn s \<Longrightarrow> one_active_admission s"
  by (induction rule: reachable_in_turn.induct)
     (simp_all add: one_active_initial one_active_handle)

text \<open>No route but the admission POST gives an admission the status ACTIVE: after any
  other request, an ACTIVE admission was ACTIVE before, with the same id and patient.\<close>

lemma active_only_by_post:
  assumes "\<forall>body. r \<noteq> AdmissionsPost body"
    and "a' \<in> set (admissions (handle now s r))" and "a_status a' = ACTIVE"
  shows "\<exists>a \<in> set (admissions s). a_status a = ACTIVE \<and> a_id a = a_id a'
      \<and> a_patientId a = a_patientId a'"
proof (cases r)
  case (AdmissionsPost body)
  with assms(1) show ?thesis by simp
next
  case (AdmissionsPut i body)
  from admissions_put_table [of now s i body] obtain g where
    g: "admissions (fst (admissions_put now s i body)) = map g (admissions s)"
      "\<And>x. a_patientId (g x) = a_patientId x" "\<And>x. a_id (g x) = a_id x"
      "\<And>x. a_status (g x) = ACTIVE \<Longrightarrow> a_status x = ACTIVE"
    by blast
  from assms(2) AdmissionsPut g(1) obtain x where x: "x \<in> set (admissions s)" "a' = g x"
    by auto
  with assms(3) g(2,3,4) have "a_status x = ACTIVE \<and> a_id x = a_id a'
      \<and> a_patientId x = a_patientId a'" by simp
  with x(1) show ?thesis by blast
next
  case (AdmissionsDelete i)
  with assms(2) admissions_delete_table [of s i] have "a' \<in> set (admissions s)" by auto
  with assms(3) show ?thesis by blast
qed (use assms in \<open>auto simp add: patients_post_frame patients_put_frame
      patients_delete_frame appointments_post_frame appointments_put_frame
      appointments_delete_frame inventory_post_frame inventory_put_frame inventory_delete_frame
      beds_post_admissions beds_put_admissions beds_delete_admissions\<close>)


subsection \<open>The pairing of bed status and active admissions\<close>

lemma split_by_key:
  assumes "distinct (map key xs)" and "find (\<lambda>x. key x = i) xs = Some a"
  shows "\<exists>ys zs. xs = ys @ a # zs \<and> (\<forall>y \<in> set ys. key y \<noteq> i) \<and> (\<forall>z \<in> set zs. key z \<noteq> i)"
  using assms
proof (induction xs)
  case Nil
  then show ?case by simp
next
  case (Cons x xs)
  show ?case
  proof (cases "key x = i")
    case True
    with Cons.prems have ax: "a = x" and "key x \<notin> key ` set xs" by simp_all
    with True have "\<forall>z \<in> set xs. key z \<noteq> i" by blast
    with ax have "x # xs = [] @ a # xs \<and> (\<forall>y \<in> set []. key y \<noteq> i) \<and> (\<forall>z \<in> set xs. key z \<noteq> i)"
      by simp
    then show ?thesis by blast
  next
    case False
    with Cons.prems have "distinct (map key xs)" and "find (\<lambda>x. key x = i) xs = Some a"
      by simp_all
    with Cons.IH obtain ys zs where
      "xs = ys @ a # zs" "\<forall>y \<in> set ys. key y \<noteq> i" "\<forall>z \<in> set zs. key z \<noteq> i"
      by blast
    with False have "x # xs = (x # ys) @ a # zs \<and> (\<forall>y \<in> set (x # ys). key y \<noteq> i)
        \<and> (\<forall>z \<in> set zs. key z \<noteq> i)"
      by simp
    then show ?thesis by blast
  qed
qed

lemma map_upd_id:
  "\<forall>y \<in> set ys. key y \<noteq> i \<Longrightarrow> map (\<lambda>x. if key x = i then f x else x) ys = ys"
  by (induction ys) simp_all

lemma map_upd_split:
  assumes "\<forall>y \<in> set ys. key y \<noteq> i" and "\<forall>z \<in> set zs. key z \<noteq> i" and "key a = i"
  shows "map (\<lambda>x. if key x = i then f x else x) (ys @ a # zs) = ys @ f a # zs"
  using assms by (simp add: map_upd_id)

lemma filter_drop_id:
  "\<forall>y \<in> set ys. key y \<noteq> i \<Longrightarrow> filter (\<lambda>x. key x \<noteq> i) ys = ys"
  by (induction ys) simp_all

lemma filter_drop_split:
  assumes "\<forall>y \<in> set ys. key y \<noteq> i" and "\<forall>z \<in> set zs. key z \<noteq> i" and "key a = i"
  shows "filter (\<lambda>x. key x \<noteq> i) (ys @ a # zs) = ys @ zs"
  using assms by (simp add: filter_drop_id)

lemma keys_map_upd:
  assumes "\<And>x. key (f x) = key x"
  shows "key ` set (map (\<lambda>x. if key x = i then f x else x) xs) = key ` set xs"
  by (induction xs) (simp_all add: assms)

lemma coordinatedI:
  assumes "\<And>b. b \<in> set (beds s)
      \<Longrightarrow> length (active_on s (b_id b)) = (if b_status b = OCCUPIED then 1 else 0)"
    and "a_bedId ` set (admissions s) \<subseteq> b_id ` set (beds s)"
    and "distinct (map a_id (admissions s))"
  shows "coordinated s"
  using assms by (simp add: coordinated_def)

lemma coordinated_count:
  "coordinated s \<Longrightarrow> b \<in> set (beds s)
   \<Longrightarrow> length (active_on s (b_id b)) = (if b_status b = OCCUPIED then 1 else 0)"
  by (simp add: coordinated_def)

lemma coordinated_refs: "coordinated s \<Longrightarrow> a_bedId ` set (admissions s) \<subseteq> b_id ` set (beds s)"
  by (simp add: coordinated_def)

lemma coordinated_distinct: "coordinated s \<Longrightarrow> distinct (map a_id (admissions s))"
  by (simp add: coordinated_def)

lemma coordinated_initial: "coordinated (initial_store us)"
  by (simp add: coordinated_def initial_store_def empty_store_def)

lemma occupancy_status:
  "map (\<lambda>b. (b_id b, b_status b)) (beds s') = map (\<lambda>b. (b_id b, b_status b)) (beds s)
   \<Longrightarrow> occupancy s' = occupancy s"
proof -
  assume "map (\<lambda>b. (b_id b, b_status b)) (beds s') = map (\<lambda>b. (b_id b, b_status b)) (beds s)"
  then have "map (\<lambda>(i, st). (i, st = OCCUPIED)) (map (\<lambda>b. (b_id b, b_status b)) (beds s'))
      = map (\<lambda>(i, st). (i, st = OCCUPIED)) (map (\<lambda>b. (b_id b, b_status b)) (beds s))"
    by (rule arg_cong)
  then show ?thesis by (simp add: occupancy_def comp_def)
qed

lemma occupancy_beds: "beds s' = beds s \<Longrightarrow> occupancy s' = occupancy s"
  by (simp add: occupancy_def)

text \<open>The invariant depends on the beds only through their ids and the answer to
  whether they are OCCUPIED.\<close>

lemma coordinated_frame:
  assumes "coordinated s" and "admissions s' = admissions s"
    and "occupancy s' = occupancy s"
  shows "coordinated s'"
proof (rule coordinatedI)
  let ?o = "\<lambda>b. (b_id b, b_status b = OCCUPIED)"
  have act: "active_on s' j = active_on s j" for j
    by (simp add: active_on_def assms(2))
  have pairs: "?o ` set (beds s') = ?o ` set (beds s)"
    using arg_cong [OF assms(3), of set] by (simp add: occupancy_def)
  have "fst ` ?o ` set (beds s') = fst ` ?o ` set (beds s)"
    by (simp only: pairs)
  then have ids: "b_id ` set (beds s') = b_id ` set (beds s)"
    by (simp add: image_image)
  show "length (active_on s' (b_id b')) = (if b_status b' = OCCUPIED then 1 else 0)"
    if "b' \<in> set (beds s')" for b'
  proof -
    from that have "?o b' \<in> ?o ` set (beds s')"
      by (rule imageI)
    then have "?o b' \<in> ?o ` set (beds s)"
      by (simp only: pairs)
    then obtain b where b: "b \<in> set (beds s)" "b_id b = b_id b'"
        "(b_status b = OCCUPIED) = (b_status b' = OCCUPIED)"
      by auto
    from coordinated_count [OF assms(1) b(1)] b(2,3) show ?thesis by (simp add: act)
  qed
  show "a_bedId ` set (admissions s') \<subseteq> b_id ` set (beds s')"
    using coordinated_refs [OF assms(1)] by (simp add: ids assms(2))
  show "distinct (map a_id (admissions s'))"
    using coordinated_distinct [OF assms(1)] by (simp add: assms(2))
qed

lemma coordinated_beds_post:
  assumes "coordinated s" and "\<not> overrides_occupancy now s (BedsPost body)"
  shows "coordinated (fst (beds_post s body))"
proof (cases "bc_bedNumber body \<noteq> []
    \<and> find (\<lambda>b. b_bedNumber b = bc_bedNumber body) (beds s) = None")
  case False
  with assms(1) show ?thesis by (auto simp add: beds_post_eq)
next
  case True
  let ?n = "fresh_id (map b_id (beds s))"
  let ?st = "case bc_status body of None \<Rightarrow> AVAILABLE | Some st \<Rightarrow> st"
  let ?new = "\<lparr>b_id = ?n, b_bedNumber = bc_bedNumber body, b_ward = bc_ward body,
      b_status = ?st, b_patientId = None, b_admissionDate = None,
      b_expectedDischargeDate = None, b_notes = bc_notes body\<rparr>"
  let ?s' = "s\<lparr>beds := beds s @ [?new]\<rparr>"
  from True have res: "beds_post s body = (?s', Created ?new)"
    by (simp add: beds_post_eq Let_def)
  have fresh: "?n \<notin> b_id ` set (beds s)"
    using fresh_id_notin [of "map b_id (beds s)"] by simp
  have "?n \<notin> a_bedId ` set (admissions s)"
    using fresh coordinated_refs [OF assms(1)] by blast
  then have "\<forall>a \<in> set (admissions s). a_bedId a \<noteq> ?n" by force
  then have none: "active_on s ?n = []"
    by (simp add: active_on_def filter_empty_conv)
  have st: "?st \<noteq> OCCUPIED"
    using assms(2) res by simp
  have act: "active_on ?s' j = active_on s j" for j
    by (simp add: active_on_def)
  have "coordinated ?s'"
  proof (rule coordinatedI)
    show "length (active_on ?s' (b_id b)) = (if b_status b = OCCUPIED then 1 else 0)"
      if "b \<in> set (beds ?s')" for b
    proof (cases "b = ?new")
      case True
      then show ?thesis using none st by (simp add: act)
    next
      case False
      with that have "b \<in> set (beds s)" by simp
      from coordinated_count [OF assms(1) this] show ?thesis by (simp add: act)
    qed
    show "a_bedId ` set (admissions ?s') \<subseteq> b_id ` set (beds ?s')"
      using coordinated_refs [OF assms(1)] by auto
    show "distinct (map a_id (admissions ?s'))"
      using coordinated_distinct [OF assms(1)] by simp
  qed
  then show ?thesis by (simp add: res)
qed

lemma coordinated_beds_delete:
  assumes "coordinated s"
  shows "coordinated (fst (beds_delete s i))"
proof (cases "fst (beds_delete s i) = s")
  case True
  with assms show ?thesis by simp
next
  case False
  let ?s' = "s\<lparr>beds := filter (\<lambda>x. b_id x \<noteq> i) (beds s)\<rparr>"
  from False have del: "fst (beds_delete s i) = ?s'"
    and unref: "find (\<lambda>a. a_bedId a = i) (admissions s) = None"
    by (auto simp add: beds_delete_def beds_delete_handler_def bed_delete_def
        split: option.splits if_splits)
  from unref have ni: "i \<notin> a_bedId ` set (admissions s)"
    by (auto simp add: find_None_iff)
  have act: "active_on ?s' j = active_on s j" for j
    by (simp add: active_on_def)
  have "coordinated ?s'"
  proof (rule coordinatedI)
    show "length (active_on ?s' (b_id b)) = (if b_status b = OCCUPIED then 1 else 0)"
      if "b \<in> set (beds ?s')" for b
    proof -
      from that have "b \<in> set (beds s)" by simp
      from coordinated_count [OF assms this] show ?thesis by (simp add: act)
    qed
    show "a_bedId ` set (admissions ?s') \<subseteq> b_id ` set (beds ?s')"
    proof
      fix k assume k: "k \<in> a_bedId ` set (admissions ?s')"
      then have "k \<in> b_id ` set (beds s)" using coordinated_refs [OF assms] by auto
      moreover from k ni have "k \<noteq> i" by auto
      ultimately show "k \<in> b_id ` set (beds ?s')" by auto
    qed
    show "distinct (map a_id (admissions ?s'))"
      using coordinated_distinct [OF assms] by simp
  qed
  then show ?thesis by (simp only: del)
qed


lemma coordinated_admit_writes:
  assumes "coordinated s" and "find_bed s i = Some b" and "b_status b = AVAILABLE"
  shows "coordinated (admit_writes s p i d body)"
proof -
  let ?s' = "admit_writes s p i d body"
  from assms(2) have bmem: "b \<in> set (beds s)" "b_id b = i"
    using find_Some_key [of b_id i "beds s" b] by (simp_all add: find_bed_def)
  from coordinated_count [OF assms(1) bmem(1)] assms(3) bmem(2)
  have free: "active_on s i = []" by simp
  have act: "active_on ?s' j = active_on s j @ (if j = i then [admitted s p i d body] else [])"
    for j
    by (simp add: active_on_def admit_writes_def admitted_def)
  have ids: "b_id ` set (beds ?s') = b_id ` set (beds s)"
    unfolding admit_writes_def
    using keys_map_upd [of b_id "occupy p body" i "beds s"] by (simp add: occupy_def)
  show ?thesis
  proof (rule coordinatedI)
    show "length (active_on ?s' (b_id b')) = (if b_status b' = OCCUPIED then 1 else 0)"
      if "b' \<in> set (beds ?s')" for b'
    proof -
      from that obtain x where x: "x \<in> set (beds s)"
        "b' = (if b_id x = i then occupy p body x else x)"
        by (auto simp add: admit_writes_def)
      show ?thesis
      proof (cases "b_id x = i")
        case True
        with x free show ?thesis by (simp add: act occupy_def)
      next
        case False
        with x coordinated_count [OF assms(1) x(1)] show ?thesis by (simp add: act)
      qed
    qed
    have "a_bedId (admitted s p i d body) \<in> b_id ` set (beds s)"
      using bmem by (force simp add: admitted_def)
    then show "a_bedId ` set (admissions ?s') \<subseteq> b_id ` set (beds ?s')"
      unfolding ids using coordinated_refs [OF assms(1)] by (simp add: admit_writes_def)
    show "distinct (map a_id (admissions ?s'))"
      using coordinated_distinct [OF assms(1)] fresh_id_notin [of "map a_id (admissions s)"]
      by (simp add: admit_writes_def admitted_def)
  qed
qed

lemma coordinated_admissions_post:
  assumes "coordinated s"
  shows "coordinated (fst (admissions_post s body))"
proof -
  from admissions_post_cases [of body s] show ?thesis
  proof
    assume "fst (admissions_post s body) = s \<and> (\<forall>a. snd (admissions_post s body) \<noteq> Created a)"
    with assms show ?thesis by simp
  next
    assume "\<exists>p b d. ac_patientId body = Uuid p \<and> ac_bedId body = Uuid b
      \<and> ac_doctorId body = Uuid d
      \<and> admissions_post s body = (admit_writes s p b d body, Created (admitted s p b d body))
      \<and> find (\<lambda>a. a_patientId a = p \<and> a_status a = ACTIVE) (admissions s) = None
      \<and> map_option b_status (find_bed s b) = Some AVAILABLE"
    then obtain p i d where
      ok: "admissions_post s body = (admit_writes s p i d body, Created (admitted s p i d body))"
      and av: "map_option b_status (find_bed s i) = Some AVAILABLE"
      by blast
    from av obtain b where b: "find_bed s i = Some b" "b_status b = AVAILABLE" by auto
    with assms have "coordinated (admit_writes s p i d body)" by (rule coordinated_admit_writes)
    with ok show ?thesis by simp
  qed
qed

lemma coordinated_map:
  assumes "coordinated s" and "admissions s' = map g (admissions s)"
    and "\<And>x. a_status (g x) = a_status x" and "\<And>x. a_bedId (g x) = a_bedId x"
    and "\<And>x. a_id (g x) = a_id x" and "beds s' = beds s"
  shows "coordinated s'"
proof (rule coordinatedI)
  have len: "length (active_on s' j) = length (active_on s j)" for j
    by (simp add: active_on_def assms(2) filter_map comp_def assms(3) assms(4))
  show "length (active_on s' (b_id b)) = (if b_status b = OCCUPIED then 1 else 0)"
    if "b \<in> set (beds s')" for b
  proof -
    from that have "b \<in> set (beds s)" by (simp add: assms(6))
    from coordinated_count [OF assms(1) this] show ?thesis by (simp add: len)
  qed
  have "a_bedId ` set (admissions s') = a_bedId ` set (admissions s)"
    by (simp add: assms(2) image_image assms(4))
  then show "a_bedId ` set (admissions s') \<subseteq> b_id ` set (beds s')"
    using coordinated_refs [OF assms(1)] by (simp add: assms(6))
  have "map a_id (admissions s') = map a_id (admissions s)"
    by (simp add: assms(2) comp_def assms(5))
  then show "distinct (map a_id (admissions s'))"
    using coordinated_distinct [OF assms(1)] by simp
qed

lemma coordinated_close:
  assumes "coordinated s" and "admissions s = ys @ a # zs" and "a_status a = ACTIVE"
    and "admissions s' = ys @ cs @ zs"
    and "cs = [] \<or> (\<exists>c. cs = [c] \<and> a_status c \<noteq> ACTIVE \<and> a_bedId c = a_bedId a \<and> a_id c = a_id a)"
    and "beds s' = map (\<lambda>x. if b_id x = a_bedId a then free_bed x else x) (beds s)"
  shows "coordinated s'"
proof (rule coordinatedI)
  let ?j = "a_bedId a"
  let ?P = "\<lambda>k x. a_bedId x = k \<and> a_status x = ACTIVE"
  have cs_inactive: "filter (?P k) cs = []" for k
    using assms(5) by auto
  have act: "active_on s k = filter (?P k) ys @ (if k = ?j then [a] else []) @ filter (?P k) zs" for k
    using assms(3) by (auto simp add: active_on_def assms(2))
  have act': "active_on s' k = filter (?P k) ys @ filter (?P k) zs" for k
    by (simp add: active_on_def assms(4) cs_inactive)
  have ids: "b_id ` set (beds s') = b_id ` set (beds s)"
    unfolding assms(6) using keys_map_upd [of b_id free_bed ?j "beds s"]
    by (simp add: free_bed_def)
  show "length (active_on s' (b_id b')) = (if b_status b' = OCCUPIED then 1 else 0)"
    if "b' \<in> set (beds s')" for b'
  proof -
    from that obtain x where x: "x \<in> set (beds s)"
      "b' = (if b_id x = ?j then free_bed x else x)"
      by (auto simp add: assms(6))
    from coordinated_count [OF assms(1) x(1)]
    have inv: "length (active_on s (b_id x)) = (if b_status x = OCCUPIED then 1 else 0)" .
    show ?thesis
    proof (cases "b_id x = ?j")
      case True
      with inv have "length (filter (?P ?j) ys) + 1 + length (filter (?P ?j) zs) \<le> 1"
        by (simp add: act split: if_splits)
      then have "length (filter (?P ?j) ys) + length (filter (?P ?j) zs) = 0" by arith
      with True x(2) show ?thesis by (simp add: act' free_bed_def)
    next
      case False
      with inv x(2) show ?thesis by (simp add: act act')
    qed
  qed
  have "a_bedId ` set (admissions s') \<subseteq> a_bedId ` set (admissions s)"
    using assms(5) by (auto simp add: assms(2) assms(4))
  then show "a_bedId ` set (admissions s') \<subseteq> b_id ` set (beds s')"
    unfolding ids using coordinated_refs [OF assms(1)] by (rule subset_trans)
  from coordinated_distinct [OF assms(1)] have d: "distinct (map a_id (ys @ a # zs))"
    by (simp add: assms(2))
  from assms(5) have "map a_id (admissions s') = map a_id (ys @ zs)
      \<or> map a_id (admissions s') = map a_id (ys @ a # zs)"
    by (auto simp add: assms(4))
  then show "distinct (map a_id (admissions s'))"
  proof
    assume "map a_id (admissions s') = map a_id (ys @ zs)"
    with d show ?thesis by simp
  next
    assume "map a_id (admissions s') = map a_id (ys @ a # zs)"
    with d show ?thesis by simp
  qed
qed

lemma coordinated_drop_inactive:
  assumes "coordinated s" and "admissions s = ys @ a # zs" and "a_status a \<noteq> ACTIVE"
    and "admissions s' = ys @ zs" and "beds s' = beds s"
  shows "coordinated s'"
proof (rule coordinatedI)
  have act: "active_on s' k = active_on s k" for k
    using assms(3) by (simp add: active_on_def assms(2) assms(4))
  show "length (active_on s' (b_id b)) = (if b_status b = OCCUPIED then 1 else 0)"
    if "b \<in> set (beds s')" for b
  proof -
    from that have "b \<in> set (beds s)" by (simp add: assms(5))
    from coordinated_count [OF assms(1) this] show ?thesis by (simp add: act)
  qed
  have "a_bedId ` set (admissions s') \<subseteq> a_bedId ` set (admissions s)"
    by (auto simp add: assms(2) assms(4))
  then show "a_bedId ` set (admissions s') \<subseteq> b_id ` set (beds s')"
    unfolding assms(5) using coordinated_refs [OF assms(1)] by (rule subset_trans)
  from coordinated_distinct [OF assms(1)] show "distinct (map a_id (admissions s'))"
    by (simp add: assms(2) assms(4))
qed


lemma coordinated_admissions_put:
  assumes "coordinated s"
  shows "coordinated (fst (admissions_put now s i body))"
proof (cases "find_admission s i")
  case None
  with assms show ?thesis by (simp add: admissions_put_eq)
next
  case (Some a)
  with coordinated_distinct [OF assms] obtain ys zs where
    sp: "admissions s = ys @ a # zs" "\<forall>y \<in> set ys. a_id y \<noteq> i" "\<forall>z \<in> set zs. a_id z \<noteq> i"
    using split_by_key [of a_id "admissions s" i a] by (auto simp add: find_admission_def)
  from Some have key: "a_id a = i"
    using find_Some_key [of a_id i "admissions s" a] by (simp add: find_admission_def)
  show ?thesis
  proof (cases "\<exists>st. au_status body = Some st \<and> st \<noteq> ACTIVE \<and> a_status a = ACTIVE")
    case True
    then obtain st where st: "au_status body = Some st" "st \<noteq> ACTIVE" "a_status a = ACTIVE"
      by blast
    show ?thesis
    proof (cases "find_bed s (a_bedId a)")
      case None
      with Some st assms show ?thesis by (simp add: discharge_rollback)
    next
      case (Some b)
      let ?s' = "discharge_writes now s i a st body"
      have "map (\<lambda>x. if a_id x = i then closing now a st body x else x) (ys @ a # zs)
            = ys @ closing now a st body a # zs"
        using sp(2,3) key by (rule map_upd_split)
      then have adm: "admissions ?s' = ys @ [closing now a st body a] @ zs"
        by (simp add: discharge_writes_def sp(1))
      have bds: "beds ?s' = map (\<lambda>x. if b_id x = a_bedId a then free_bed x else x) (beds s)"
        by (simp add: discharge_writes_def)
      have cl: "[closing now a st body a] = [] \<or> (\<exists>c. [closing now a st body a] = [c]
          \<and> a_status c \<noteq> ACTIVE \<and> a_bedId c = a_bedId a \<and> a_id c = a_id a)"
        using st(2) by (simp add: closing_def)
      from assms sp(1) st(3) adm cl bds have "coordinated ?s'"
        by (rule coordinated_close)
      with Some \<open>find_admission s i = Some a\<close> st show ?thesis
        by (simp add: discharge_success)
    qed
  next
    case False
    then have "a_status a \<noteq> ACTIVE \<or> au_status body = Some ACTIVE \<or> au_status body = None"
      by (cases "au_status body") auto
    with Some have res: "fst (admissions_put now s i body)
        = s\<lparr>admissions := map (\<lambda>x. if a_id x = i then annotated a body x else x) (admissions s)\<rparr>"
      by (simp add: simple_update_result)
    show ?thesis
      unfolding res
      by (rule coordinated_map [OF assms, where g = "\<lambda>x. if a_id x = i then annotated a body x else x"])
         (simp_all add: annotated_def)
  qed
qed

lemma coordinated_admissions_delete:
  assumes "coordinated s"
  shows "coordinated (fst (admissions_delete s i))"
proof (cases "find_admission s i")
  case None
  with assms show ?thesis by (simp add: admissions_delete_eq)
next
  case (Some a)
  with coordinated_distinct [OF assms] obtain ys zs where
    sp: "admissions s = ys @ a # zs" "\<forall>y \<in> set ys. a_id y \<noteq> i" "\<forall>z \<in> set zs. a_id z \<noteq> i"
    using split_by_key [of a_id "admissions s" i a] by (auto simp add: find_admission_def)
  from Some have key: "a_id a = i"
    using find_Some_key [of a_id i "admissions s" a] by (simp add: find_admission_def)
  have "filter (\<lambda>x. a_id x \<noteq> i) (ys @ a # zs) = ys @ zs"
    using sp(2,3) key by (rule filter_drop_split)
  then have drop: "filter (\<lambda>x. a_id x \<noteq> i) (admissions s) = ys @ zs"
    by (simp only: sp(1))
  show ?thesis
  proof (cases "a_status a = ACTIVE")
    case False
    with Some have "fst (admissions_delete s i)
        = s\<lparr>admissions := filter (\<lambda>x. a_id x \<noteq> i) (admissions s)\<rparr>"
      by (simp add: admissions_delete_eq admission_delete_def)
    with drop have adm: "admissions (fst (admissions_delete s i)) = ys @ zs"
      and bds: "beds (fst (admissions_delete s i)) = beds s" by simp_all
    from assms sp(1) False adm bds show ?thesis by (rule coordinated_drop_inactive)
  next
    case True
    show ?thesis
    proof (cases "find_bed s (a_bedId a)")
      case None
      with Some True assms show ?thesis
        by (simp add: admissions_delete_eq free_and_delete_def bed_update_def)
    next
      case (Some b)
      with \<open>find_admission s i = Some a\<close> True
      have "fst (admissions_delete s i)
          = s\<lparr>beds := map (\<lambda>x. if b_id x = a_bedId a then free_bed x else x) (beds s),
              admissions := filter (\<lambda>x. a_id x \<noteq> i) (admissions s)\<rparr>"
        by (simp add: admissions_delete_eq free_and_delete_def admission_delete_def
            bed_update_def free_bed_def find_admission_def)
      with drop have adm: "admissions (fst (admissions_delete s i)) = ys @ [] @ zs"
        and bds: "beds (fst (admissions_delete s i))
             = map (\<lambda>x. if b_id x = a_bedId a then free_bed x else x) (beds s)"
        by simp_all
      have cl: "([]::admission list) = [] \<or> (\<exists>c. [] = [c]
          \<and> a_status c \<noteq> ACTIVE \<and> a_bedId c = a_bedId a \<and> a_id c = a_id a)"
        by simp
      from assms sp(1) True adm cl bds show ?thesis by (rule coordinated_close)
    qed
  qed
qed

lemma coordinated_handle:
  assumes "coordinated s" and "\<not> overrides_occupancy now s r"
  shows "coordinated (handle now s r)"
proof (cases r)
  case (PatientsPost body)
  from assms(1) have "coordinated (fst (patients_post s body))"
    by (rule coordinated_frame) (simp_all add: patients_post_frame occupancy_def)
  with PatientsPost show ?thesis by simp
next
  case (PatientsPut i body)
  from assms(1) have "coordinated (fst (patients_put s i body))"
    by (rule coordinated_frame) (simp_all add: patients_put_frame occupancy_def)
  with PatientsPut show ?thesis by simp
next
  case (PatientsDelete i)
  from assms(1) have "coordinated (fst (patients_delete s i))"
    by (rule coordinated_frame) (simp add: patients_delete_frame, rule occupancy_status, simp add: patients_delete_frame)
  with PatientsDelete show ?thesis by simp
next
  case (AppointmentsPost body)
  from assms(1) have "coordinated (fst (appointments_post s body))"
    by (rule coordinated_frame) (simp_all add: appointments_post_frame occupancy_def)
  with AppointmentsPost show ?thesis by simp
next
  case (AppointmentsPut i body)
  from assms(1) have "coordinated (fst (appointments_put s i body))"
    by (rule coordinated_frame) (simp_all add: appointments_put_frame occupancy_def)
  with AppointmentsPut show ?thesis by simp
next
  case (AppointmentsDelete i)
  from assms(1) have "coordinated (fst (appointments_delete s i))"
    by (rule coordinated_frame) (simp_all add: appointments_delete_frame occupancy_def)
  with AppointmentsDelete show ?thesis by simp
next
  case (BedsPost body)
  with assms show ?thesis by (simp add: coordinated_beds_post [where now = now])
next
  case (BedsPut i body)
  with assms(2) have "occupancy (fst (beds_put now s i body)) = occupancy s" by simp
  with assms(1) beds_put_admissions have "coordinated (fst (beds_put now s i body))"
    by (rule coordinated_frame)
  with BedsPut show ?thesis by simp
next
  case (BedsDelete i)
  with assms show ?thesis by (simp add: coordinated_beds_delete)
next
  case (AdmissionsPost body)
  with assms show ?thesis by (simp add: coordinated_admissions_post)
next
  case (AdmissionsPut i body)
  with assms show ?thesis by (simp add: coordinated_admissions_put)
next
  case (AdmissionsDelete i)
  with assms show ?thesis by (simp add: coordinated_admissions_delete)
next
  case (InventoryPost body)
  from assms(1) have "coordinated (fst (inventory_post s body))"
    by (rule coordinated_frame) (simp_all add: inventory_post_frame occupancy_def)
  with InventoryPost show ?thesis by simp
next
  case (InventoryPut i body)
  from assms(1) have "coordinated (fst (inventory_put s i body))"
    by (rule coordinated_frame) (simp_all add: inventory_put_frame occupancy_def)
  with InventoryPut show ?thesis by simp
next
  case (InventoryDelete i)
  from assms(1) have "coordinated (fst (inventory_delete s i))"
    by (rule coordinated_frame) (simp_all add: inventory_delete_frame occupancy_def)
  with InventoryDelete show ?thesis by simp
qed

lemma coordinated_pairing: "coordinated s \<Longrightarrow> bed_admission_pairing s"
  by (simp add: coordinated_def bed_admission_pairing_def list_all_iff)

lemma reachable_by_admissions_coordinated: "reachable_by_admissions s \<Longrightarrow> coordinated s"
  by (induction rule: reachable_by_admissions.induct)
     (simp_all add: coordinated_initial coordinated_handle)

lemma bed_update_ids:
  "bed_update s i f = Inr (s1, b) \<Longrightarrow> (\<And>x. b_id (f x) = b_id x)
   \<Longrightarrow> map b_id (beds s1) = map b_id (beds s)"
  by (auto simp add: bed_update_def comp_def split: option.splits if_splits)

lemma beds_put_ids: "map b_id (beds (fst (beds_put now s i body))) = map b_id (beds s)"
  by (auto simp add: beds_put_def beds_put_handler_def beds_put_association_def
      dest!: bed_update_ids split: option.split sum.split)

lemma pairing_needs_occupancy:
  assumes "coordinated s" and "admissions s' = admissions s"
    and "map b_id (beds s') = map b_id (beds s)" and "occupancy s' \<noteq> occupancy s"
  shows "\<not> bed_admission_pairing s'"
proof
  assume pairing: "bed_admission_pairing s'"
  from assms(3) have len: "length (beds s') = length (beds s)"
    using map_eq_imp_length_eq by blast
  have "\<exists>k < length (beds s). occupancy s' ! k \<noteq> occupancy s ! k"
  proof (rule ccontr)
    assume "\<not> (\<exists>k < length (beds s). occupancy s' ! k \<noteq> occupancy s ! k)"
    with len have "occupancy s' = occupancy s"
      by (intro nth_equalityI) (simp_all add: occupancy_def)
    with assms(4) show False by simp
  qed
  then obtain k where k: "k < length (beds s)" "occupancy s' ! k \<noteq> occupancy s ! k" by blast
  let ?b = "beds s ! k" and ?b' = "beds s' ! k"
  from k(1) len assms(3) have ids: "b_id ?b' = b_id ?b"
    by (metis nth_map)
  with k len have flag: "(b_status ?b' = OCCUPIED) \<noteq> (b_status ?b = OCCUPIED)"
    by (simp add: occupancy_def)
  from k(1) have "?b \<in> set (beds s)" by simp
  from coordinated_count [OF assms(1) this]
  have c: "length (active_on s (b_id ?b)) = (if b_status ?b = OCCUPIED then 1 else 0)" .
  from k(1) len have "?b' \<in> set (beds s')" by simp
  with pairing have "(b_status ?b' = OCCUPIED) = (length (active_on s' (b_id ?b')) = 1)"
    by (simp add: bed_admission_pairing_def list_all_iff)
  moreover have "active_on s' (b_id ?b') = active_on s (b_id ?b)"
    by (simp add: active_on_def assms(2) ids)
  ultimately show False using c flag by (simp split: if_splits)
qed

text \<open>The requests left out are the ones that break the pairing: from a store that
  satisfies the invariant, a request to the bed routes that overrides the occupancy of a
  bed leads to a store where the pairing fails.\<close>

lemma overrides_occupancy_breaks_pairing:
  assumes "coordinated s" and "overrides_occupancy now s r"
  shows "\<not> bed_admission_pairing (handle now s r)"
proof (cases r)
  case (BedsPost body)
  let ?n = "fresh_id (map b_id (beds s))"
  from assms(2) BedsPost obtain b where
    b: "snd (beds_post s body) = Created b" "b_status b = OCCUPIED"
    by (auto split: response.splits)
  then have res: "fst (beds_post s body) = s\<lparr>beds := beds s @ [b]\<rparr>" and n: "b_id b = ?n"
    by (auto simp add: beds_post_eq Let_def split: if_splits option.splits)
  have "?n \<notin> b_id ` set (beds s)"
    using fresh_id_notin [of "map b_id (beds s)"] by simp
  then have "?n \<notin> a_bedId ` set (admissions s)"
    using coordinated_refs [OF assms(1)] by blast
  then have "\<forall>a \<in> set (admissions s). a_bedId a \<noteq> ?n" by force
  then have "active_on (s\<lparr>beds := beds s @ [b]\<rparr>) ?n = []"
    by (simp add: active_on_def filter_empty_conv)
  with b(2) n have "\<not> bed_admission_pairing (s\<lparr>beds := beds s @ [b]\<rparr>)"
    by (simp add: bed_admission_pairing_def)
  with BedsPost res show ?thesis by simp
next
  case (BedsPut i body)
  with assms(2) have "occupancy (fst (beds_put now s i body)) \<noteq> occupancy s" by simp
  with assms(1) beds_put_admissions beds_put_ids
  have "\<not> bed_admission_pairing (fst (beds_put now s i body))"
    by (rule pairing_needs_occupancy)
  with BedsPut show ?thesis by simp
qed (use assms(2) in simp_all)

subsection \<open>The sample ward\<close>

lemma ward_value:
  "ward = \<lparr>users = [dr_jones, dr_smith],
     patients = [\<lparr>p_id = 1, p_mrn = ''MRN0001'', p_firstName = ''John'', p_lastName = ''Doe'',
        p_dateOfBirth = 484963200000, p_gender = MALE, p_contactNumber = ''+1234567890'',
        p_email = None, p_address = ''123 Main St'', p_bloodGroup = None, p_allergies = None,
        p_medicalHistory = None\<rparr>],
     appointments = [],
     beds = [\<lparr>b_id = 1, b_bedNumber = ''A-101'', b_ward = WARD_GENERAL, b_status = AVAILABLE,
        b_patientId = None, b_admissionDate = None, b_expectedDischargeDate = None,
        b_notes = None\<rparr>],
     admissions = [], inventory = []\<rparr>"
  by code_simp

lemma ward_admitted_value:
  "ward_admitted = ward\<lparr>
     beds := [\<lparr>b_id = 1, b_bedNumber = ''A-101'', b_ward = WARD_GENERAL, b_status = OCCUPIED,
        b_patientId = Some 1, b_admissionDate = Some 1745280000000,
        b_expectedDischargeDate = None, b_notes = None\<rparr>],
     admissions := [\<lparr>a_id = 1, a_patientId = 1, a_bedId = 1, a_admissionDate = 1745280000000,
        a_dischargeDate = None, a_doctorId = Uuid 1, a_diagnosis = Some ''Pneumonia'',
        a_status = ACTIVE, a_notes = None\<rparr>]\<rparr>"
  by code_simp

lemma reachable_in_turn_ward: "reachable_in_turn ward"
  unfolding ward_def by (rule reachable_in_turn_run) (rule reachable_in_turn.initial)

lemma reachable_ward: "reachable ward"
  using reachable_in_turn_ward by (rule reachable_in_turn_reachable)

lemma reachable_two_beds: "reachable two_beds"
  unfolding two_beds_def using reachable_ward by (rule reachable_run)

text \<open>A run of requests none of which overrides the occupancy of a bed.\<close>

lemma reachable_by_admissions_run:
  "reachable_by_admissions s \<Longrightarrow> coordinating now s rs
   \<Longrightarrow> reachable_by_admissions (run now s rs)"
  unfolding run_def
  by (induction rs arbitrary: s) (simp_all add: reachable_by_admissions.coordinating)

subsection \<open>Admission\<close>




subsection \<open>Discharge and transfer\<close>

text \<open>
  C3. An update of an ACTIVE admission that asks for DISCHARGED or TRANSFERRED gives the
  admission that status and the supplied discharge date, or the clock's time when none is
  supplied, and resets the referenced bed to AVAILABLE with no patient, admission date or
  expected discharge date; the resulting store holds both writes.
\<close>

theorem admissions_put_discharges:
  assumes "find_admission s i = Some a" and "a_status a = ACTIVE"
    and "au_status body = Some st" and "st = DISCHARGED \<or> st = TRANSFERRED"
    and "find_bed s (a_bedId a) = Some b"
  shows "\<exists>a' b'. admissions_put now s i body = (discharge_writes now s i a st body, Ok a')
      \<and> find_admission (discharge_writes now s i a st body) i = Some a'
      \<and> a_status a' = st
      \<and> a_dischargeDate a' = Some (case au_dischargeDate body of Some d \<Rightarrow> d | None \<Rightarrow> now)
      \<and> find_bed (discharge_writes now s i a st body) (a_bedId a) = Some b'
      \<and> b_status b' = AVAILABLE \<and> b_patientId b' = None \<and> b_admissionDate b' = None
      \<and> b_expectedDischargeDate b' = None"
proof -
  from assms(4) have st: "st \<noteq> ACTIVE" by auto
  from assms(1,2,3) st assms(5)
  have "admissions_put now s i body
        = (discharge_writes now s i a st body, Ok (closing now a st body a))"
    by (rule discharge_success)
  moreover from assms(1)
  have "find_admission (discharge_writes now s i a st body) i = Some (closing now a st body a)"
    by (rule find_admission_discharge_writes)
  moreover from assms(5)
  have "find_bed (discharge_writes now s i a st body) (a_bedId a) = Some (free_bed b)"
    by (rule find_bed_discharge_writes) simp
  ultimately show ?thesis by (simp add: closing_def free_bed_def)
qed

theorem admissions_put_discharges_witness:
  "find_admission ward_admitted 1 = Some (admitted ward 1 1 1 admit_john)
   \<and> a_status (admitted ward 1 1 1 admit_john) = ACTIVE
   \<and> au_status discharge = Some DISCHARGED
   \<and> find_bed ward_admitted (a_bedId (admitted ward 1 1 1 admit_john))
       = Some (occupy 1 admit_john (hd (beds ward)))
   \<and> (\<exists>a' b'. admissions_put 9 ward_admitted 1 discharge
          = (discharge_writes 9 ward_admitted 1 (admitted ward 1 1 1 admit_john) DISCHARGED
               discharge, Ok a')
        \<and> find_admission
            (discharge_writes 9 ward_admitted 1 (admitted ward 1 1 1 admit_john) DISCHARGED
               discharge) 1
            = Some a'
        \<and> a_status a' = DISCHARGED
        \<and> a_dischargeDate a' = Some (case au_dischargeDate discharge of Some d \<Rightarrow> d | None \<Rightarrow> 9)
        \<and> find_bed
            (discharge_writes 9 ward_admitted 1 (admitted ward 1 1 1 admit_john) DISCHARGED
               discharge)
            (a_bedId (admitted ward 1 1 1 admit_john)) = Some b'
        \<and> b_status b' = AVAILABLE \<and> b_patientId b' = None \<and> b_admissionDate b' = None
        \<and> b_expectedDischargeDate b' = None)"
proof -
  have a: "find_admission ward_admitted 1 = Some (admitted ward 1 1 1 admit_john)"
    by (simp add: ward_admitted_value ward_value find_admission_def admitted_def admit_john_def
        admission_of_def fresh_id_def)
  have s: "a_status (admitted ward 1 1 1 admit_john) = ACTIVE"
    by (simp add: admitted_def)
  have b: "find_bed ward_admitted (a_bedId (admitted ward 1 1 1 admit_john))
      = Some (occupy 1 admit_john (hd (beds ward)))"
    by (simp add: ward_admitted_value ward_value find_bed_def admitted_def admit_john_def
        admission_of_def occupy_def)
  have d: "au_status discharge = Some DISCHARGED"
    by (simp add: discharge_def)
  have st: "DISCHARGED = DISCHARGED \<or> DISCHARGED = TRANSFERRED" by simp
  note admissions_put_discharges [OF a s d st b, of 9]
  with a s d b show ?thesis by (intro conjI)
qed

subsection \<open>Rejected admission\<close>




subsection \<open>Simple update\<close>



subsection \<open>Inventory update\<close>




subsection \<open>Invariants\<close>

text \<open>
  C4, as amended. In every store that the service reaches when it serves its requests
  one at a time, no two ACTIVE admissions have the same patient.
\<close>

theorem one_active_admission_per_patient: "reachable_in_turn s \<Longrightarrow> one_active_admission s"
  by (induction rule: reachable_in_turn.induct)
     (simp_all add: one_active_initial one_active_handle)

theorem one_active_admission_per_patient_witness:
  "reachable_in_turn two_admitted \<and> one_active_admission two_admitted
   \<and> map (\<lambda>a. (a_patientId a, a_bedId a, a_status a)) (admissions two_admitted)
       = [(1, 1, ACTIVE), (2, 2, ACTIVE)]"
proof -
  have "reachable_in_turn two_beds"
    unfolding two_beds_def using reachable_in_turn_ward by (rule reachable_in_turn_run)
  then have r: "reachable_in_turn two_admitted"
    unfolding two_admitted_def by (rule reachable_in_turn_run)
  have "map (\<lambda>a. (a_patientId a, a_bedId a, a_status a)) (admissions two_admitted)
       = [(1, 1, ACTIVE), (2, 2, ACTIVE)]"
    by code_simp
  with one_active_admission_per_patient [OF r] r show ?thesis by simp
qed

text \<open>C4 as stated fails: two admission requests for the patient of the ward, one for
  each free bed, overlap. Both handlers find no ACTIVE admission of the patient before
  either transaction runs, and both transactions commit.\<close>

theorem admitted_twice_counterexample:
  "reachable admitted_twice
   \<and> map (\<lambda>a. (a_patientId a, a_bedId a, a_status a)) (admissions admitted_twice)
       = [(1, 1, ACTIVE), (1, 2, ACTIVE)]
   \<and> \<not> one_active_admission admitted_twice"
proof (intro conjI)
  show "reachable admitted_twice"
    unfolding admitted_twice_def using reachable_two_beds by (rule reachable_overlapped)
  show "map (\<lambda>a. (a_patientId a, a_bedId a, a_status a)) (admissions admitted_twice)
       = [(1, 1, ACTIVE), (1, 2, ACTIVE)]"
    by code_simp
  show "\<not> one_active_admission admitted_twice"
    by code_simp
qed

text \<open>
  C1, as amended. In every store that the service reaches when it serves its requests
  one at a time, and none of them is a request to the bed routes that decides on its own
  whether a bed is OCCUPIED (a creation that stores an OCCUPIED bed, an update after which
  a bed is OCCUPIED that was not, or is no longer OCCUPIED), a bed is OCCUPIED if and only
  if exactly one ACTIVE admission references it.
\<close>

theorem pairing_kept_by_admissions:
  "reachable_by_admissions s \<Longrightarrow> bed_admission_pairing s"
  by (rule coordinated_pairing) (rule reachable_by_admissions_coordinated)

theorem pairing_kept_by_admissions_witness:
  "reachable_by_admissions ward_discharged \<and> bed_admission_pairing ward_discharged
   \<and> map b_status (beds ward_discharged) = [AVAILABLE, MAINTENANCE]
   \<and> map a_status (admissions ward_discharged) = [DISCHARGED]"
proof -
  have "reachable_by_admissions ward"
    unfolding ward_def
    by (rule reachable_by_admissions_run) (rule reachable_by_admissions.initial_store, code_simp)
  then have "reachable_by_admissions ward_admitted"
    unfolding ward_admitted_def by (rule reachable_by_admissions_run) code_simp
  then have r: "reachable_by_admissions ward_discharged"
    unfolding ward_discharged_def by (rule reachable_by_admissions_run) code_simp
  have "map b_status (beds ward_discharged) = [AVAILABLE, MAINTENANCE]" by code_simp
  moreover have "map a_status (admissions ward_discharged) = [DISCHARGED]" by code_simp
  ultimately show ?thesis using pairing_kept_by_admissions [OF r] r by simp
qed

text \<open>C1 as stated fails, in two ways. The bed update route marks the free bed of the
  ward OCCUPIED while no admission references it. And two admission requests for the two
  patients and one free bed overlap: both handlers read the bed as AVAILABLE before either
  transaction runs, and the bed is OCCUPIED with two ACTIVE admissions that reference it.\<close>

theorem pairing_broken_counterexample:
  "reachable occupied_directly
   \<and> map b_status (beds occupied_directly) = [OCCUPIED]
   \<and> admissions occupied_directly = []
   \<and> \<not> bed_admission_pairing occupied_directly
   \<and> reachable double_booked
   \<and> occupancy double_booked = [(1, True), (2, False)]
   \<and> map (\<lambda>a. (a_patientId a, a_bedId a, a_status a)) (admissions double_booked)
       = [(1, 1, ACTIVE), (2, 1, ACTIVE)]
   \<and> \<not> bed_admission_pairing double_booked"
proof (intro conjI)
  show "reachable occupied_directly"
    unfolding occupied_directly_def using reachable_ward by (rule reachable_run)
  show "reachable double_booked"
    unfolding double_booked_def using reachable_two_beds by (rule reachable_overlapped)
  show "map b_status (beds occupied_directly) = [OCCUPIED]" by code_simp
  show "admissions occupied_directly = []" by code_simp
  show "\<not> bed_admission_pairing occupied_directly" by code_simp
  show "occupancy double_booked = [(1, True), (2, False)]" by code_simp
  show "map (\<lambda>a. (a_patientId a, a_bedId a, a_status a)) (admissions double_booked)
       = [(1, 1, ACTIVE), (2, 1, ACTIVE)]"
    by code_simp
  show "\<not> bed_admission_pairing double_booked" by code_simp
qed


subsection \<open>Queue numbers\<close>

lemma first_desc_None: "first_by_queueNumber_desc rows = None \<longleftrightarrow> rows = []"
  by (cases rows) (simp_all split: option.split)

lemma first_desc_null:
  assumes "\<exists>a \<in> set rows. ap_queueNumber a = None"
  shows "\<exists>r. first_by_queueNumber_desc rows = Some r \<and> ap_queueNumber r = None"
  using assms
proof (induction rows)
  case Nil
  then show ?case by simp
next
  case (Cons x xs)
  show ?case
  proof (cases "first_by_queueNumber_desc xs")
    case None
    then have "xs = []" by (simp add: first_desc_None)
    with Cons.prems None show ?thesis by simp
  next
    case (Some b)
    show ?thesis
    proof (cases "ap_queueNumber b")
      case None
      with Some show ?thesis by (cases "ap_queueNumber x") simp_all
    next
      case (Some m)
      have "\<not> (\<exists>a \<in> set xs. ap_queueNumber a = None)"
      proof
        assume "\<exists>a \<in> set xs. ap_queueNumber a = None"
        with Cons.IH obtain r where "first_by_queueNumber_desc xs = Some r" "ap_queueNumber r = None"
          by blast
        with \<open>first_by_queueNumber_desc xs = Some b\<close> Some show False by simp
      qed
      with Cons.prems have "ap_queueNumber x = None" by auto
      with \<open>first_by_queueNumber_desc xs = Some b\<close> Some show ?thesis by simp
    qed
  qed
qed

lemma first_desc_max:
  assumes "rows \<noteq> []" and "\<forall>a \<in> set rows. ap_queueNumber a \<noteq> None"
  shows "\<exists>r. first_by_queueNumber_desc rows = Some r
       \<and> ap_queueNumber r = Some (Max (set (numbers rows)))"
  using assms
proof (induction rows)
  case Nil
  then show ?case by simp
next
  case (Cons x xs)
  from Cons.prems obtain q where q: "ap_queueNumber x = Some q" by auto
  show ?case
  proof (cases "xs = []")
    case True
    with q show ?thesis by (simp add: numbers_def)
  next
    case False
    with Cons obtain b where b: "first_by_queueNumber_desc xs = Some b"
      "ap_queueNumber b = Some (Max (set (numbers xs)))"
      by auto
    from False Cons.prems obtain y ys where "xs = y # ys" by (cases xs) auto
    moreover from Cons.prems this obtain p where "ap_queueNumber y = Some p" by auto
    ultimately have ne: "set (numbers xs) \<noteq> {}" by (simp add: numbers_def)
    have fin: "finite (set (numbers xs))" by simp
    have nx: "numbers (x # xs) = q # numbers xs" using q by (simp add: numbers_def)
    have "Max (set (numbers (x # xs))) = max q (Max (set (numbers xs)))"
      unfolding nx using fin ne by simp
    with b q show ?thesis by (auto simp add: max_def)
  qed
qed

lemma numbers_Nil: "\<forall>a \<in> set rows. ap_queueNumber a \<noteq> None \<Longrightarrow> numbers rows = [] \<longleftrightarrow> rows = []"
  by (cases rows) (auto simp add: numbers_def)

lemma queue_numbers_on_numbers:
  "queue_numbers_on s d
   = numbers (filter (\<lambda>a. ap_date a = d \<and> ap_status a \<noteq> CANCELLED) (appointments s))"
  by (simp add: queue_numbers_on_def)

text \<open>Where every appointment of the date that is not cancelled carries a queue number,
  the handler computes the specified number.\<close>

lemma generate_queue_number_numbered:
  assumes "\<forall>a \<in> set (appointments s).
      ap_date a = apc_date body \<and> ap_status a \<noteq> CANCELLED \<longrightarrow> ap_queueNumber a \<noteq> None"
  shows "generate_queue_number s body = specified_queue_number s body"
proof (cases "apc_status body = CANCELLED")
  case True
  then show ?thesis by (simp add: generate_queue_number_def specified_queue_number_def)
next
  case False
  let ?rows = "filter (\<lambda>a. ap_date a = apc_date body \<and> ap_status a \<noteq> CANCELLED) (appointments s)"
  from assms have all: "\<forall>a \<in> set ?rows. ap_queueNumber a \<noteq> None" by simp
  show ?thesis
  proof (cases "?rows = []")
    case True
    with False show ?thesis
      by (simp add: generate_queue_number_def specified_queue_number_def
          queue_numbers_on_numbers numbers_def)
  next
    case rows: False
    with all obtain r where r: "first_by_queueNumber_desc ?rows = Some r"
      "ap_queueNumber r = Some (Max (set (numbers ?rows)))"
      using first_desc_max [of ?rows] by blast
    from rows all have "numbers ?rows \<noteq> []" by (simp add: numbers_Nil)
    then obtain q qs where qs: "numbers ?rows = q # qs" by (cases "numbers ?rows") auto
    have "Max (set (q # qs)) = fold max qs q" by (rule Max.set_eq_fold)
    with False r qs show ?thesis
      by (simp add: generate_queue_number_def specified_queue_number_def
          queue_numbers_on_numbers)
  qed
qed

text \<open>Where one of them carries none, the handler answers 1.\<close>

lemma generate_queue_number_unnumbered:
  assumes "apc_status body \<noteq> CANCELLED"
    and "\<exists>a \<in> set (appointments s).
      ap_date a = apc_date body \<and> ap_status a \<noteq> CANCELLED \<and> ap_queueNumber a = None"
  shows "generate_queue_number s body = Some 1"
proof -
  let ?rows = "filter (\<lambda>a. ap_date a = apc_date body \<and> ap_status a \<noteq> CANCELLED) (appointments s)"
  from assms(2) have "\<exists>a \<in> set ?rows. ap_queueNumber a = None" by auto
  then obtain r where "first_by_queueNumber_desc ?rows = Some r" "ap_queueNumber r = None"
    using first_desc_null by blast
  with assms(1) show ?thesis by (simp add: generate_queue_number_def)
qed

lemma generate_queue_number_cancelled:
  "apc_status body = CANCELLED \<Longrightarrow> generate_queue_number s body = None"
  by (simp add: generate_queue_number_def)

lemma appointments_put_eq:
  "appointments_put s i body =
     (case find_appointment s i of
        None \<Rightarrow> (s, NotFound ''Appointment not found'')
      | Some appointment \<Rightarrow>
          (s\<lparr>appointments := map (\<lambda>x. if ap_id x = i then appointments_put_data body x else x)
                                 (appointments s)\<rparr>,
           Ok (appointments_put_data body appointment)))"
  by (simp add: appointments_put_def appointments_put_handler_def appointment_update_def
      split: option.split)

lemma appointments_put_queueNumber:
  "map ap_queueNumber (appointments (fst (appointments_put s i body)))
   = map ap_queueNumber (appointments s)"
proof -
  have "map ap_queueNumber (map (\<lambda>x. if ap_id x = i then appointments_put_data body x else x) xs)
        = map ap_queueNumber xs" for xs
    by (induction xs) (simp_all add: appointments_put_data_def)
  then show ?thesis by (simp add: appointments_put_eq split: option.split)
qed

text \<open>An update to CANCELLED keeps the queue number of the appointment.\<close>

lemma appointments_put_cancel:
  assumes "find_appointment s i = Some a" and "apu_status body = Some CANCELLED"
  shows "find_appointment (fst (appointments_put s i body)) i
         = Some (a\<lparr>ap_status := CANCELLED, ap_notes := prisma_set (apu_notes body) (ap_notes a)\<rparr>)"
  using assms
  by (simp add: appointments_put_eq find_appointment_def find_map_upd [where key = ap_id]
      appointments_put_data_def)

text \<open>
  C6 fails on the code. A visit created as CANCELLED and set to SCHEDULED by an update is
  not cancelled and carries no queue number. The descending order lists it first, so the
  next visit of that date receives 1, although the greatest number in use on that date is
  1 and the specified number is 2.
\<close>

theorem queue_number_after_reschedule:
  "reachable rescheduled
   \<and> map (\<lambda>a. (ap_status a, ap_queueNumber a)) (appointments rescheduled)
       = [(SCHEDULED, None), (SCHEDULED, Some 1)]
   \<and> generate_queue_number rescheduled (visit SCHEDULED) = Some 1
   \<and> specified_queue_number rescheduled (visit SCHEDULED) = Some 2
   \<and> map ap_queueNumber
        (appointments (fst (appointments_post rescheduled (visit SCHEDULED))))
       = [None, Some 1, Some 1]"
proof (intro conjI)
  show "reachable rescheduled"
    unfolding rescheduled_def using reachable_ward by (rule reachable_run)
  show "map (\<lambda>a. (ap_status a, ap_queueNumber a)) (appointments rescheduled)
       = [(SCHEDULED, None), (SCHEDULED, Some 1)]"
    by code_simp
  show "generate_queue_number rescheduled (visit SCHEDULED) = Some 1"
    by code_simp
  show "specified_queue_number rescheduled (visit SCHEDULED) = Some 2"
    by code_simp
  show "map ap_queueNumber
        (appointments (fst (appointments_post rescheduled (visit SCHEDULED))))
       = [None, Some 1, Some 1]"
    by code_simp
qed

lemma first_two_visits:
  "map ap_queueNumber (appointments (run 0 ward
      [AppointmentsPost (visit SCHEDULED), AppointmentsPost (visit SCHEDULED)]))
   = [Some 1, Some 2]"
  by code_simp

text \<open>
  C7 fails on the code. The update route writes the status and leaves the queue number:
  a visit created as SCHEDULED with queue number 1 and cancelled by an update is CANCELLED
  and still carries 1.
\<close>

theorem queue_number_kept_on_cancel:
  "reachable cancelled_later
   \<and> map (\<lambda>a. (ap_status a, ap_queueNumber a)) (appointments cancelled_later)
       = [(CANCELLED, Some 1)]"
proof
  show "reachable cancelled_later"
    unfolding cancelled_later_def using reachable_ward by (rule reachable_run)
  show "map (\<lambda>a. (ap_status a, ap_queueNumber a)) (appointments cancelled_later)
       = [(CANCELLED, Some 1)]"
    by code_simp
qed

subsection \<open>Dashboard\<close>

text \<open>The rounding at values whose binary64 form is known: 1/8 is exact, and 1/10 is
  3602879701896397 / 2^55.\<close>

lemma binary64_samples:
  "binary64 (1 / 8) = 1 / 8 \<and> binary64 (1 / 10) = 3602879701896397 / 36028797018963968
   \<and> occupancy_rate 1 8 = 13 \<and> occupancy_rate 40 40 = 100"
  by code_simp

lemma occupancy_rate_no_beds: "occupancy_rate occupied 0 = 0"
  by (simp add: occupancy_rate_def)

lemma dashboard_summary_occupancyRate:
  "occupancyRate (dashboard_summary today tomorrow s)
   = occupancy_rate (length (filter (\<lambda>b. b_status b = OCCUPIED) (beds s))) (length (beds s))"
  by (simp add: dashboard_summary_def Let_def)

lemma dashboard_summary_initial:
  "dashboard_summary today tomorrow (initial_store us)
   = \<lparr>totalPatients = 0, totalAppointments = 0, appointmentsToday = 0, availableBeds = 0,
      occupiedBeds = 0, totalBeds = 0, occupancyRate = 0, lowStockItems = 0\<rparr>"
  by (simp add: dashboard_summary_def initial_store_def empty_store_def occupancy_rate_def)

lemma first_rows_Nil: "first_rows n precedes [] rows \<longleftrightarrow> rows = []"
  by (auto simp add: first_rows_def)

lemma dashboard_lists_initial:
  "recentAdmissions (initial_store us) rows \<longleftrightarrow> rows = []"
  "upcomingAppointments today (initial_store us) visits \<longleftrightarrow> visits = []"
  by (simp_all add: recentAdmissions_def upcomingAppointments_def first_rows_Nil
      initial_store_def empty_store_def)

text \<open>Whatever the order of the rows that agree on the admission date, the list of the
  summary holds five admissions or all of them, latest first.\<close>

lemma recentAdmissions_sorted:
  assumes "recentAdmissions s rows"
  shows "length rows = min 5 (length (admissions s))"
    and "sorted (rev (map a_admissionDate rows))"
    and "set rows \<subseteq> set (admissions s)"
proof -
  from assms show "length rows = min 5 (length (admissions s))"
    by (simp add: recentAdmissions_def first_rows_def)
  from assms have "sorted_wrt (\<lambda>x y. a_admissionDate y \<le> a_admissionDate x) rows"
    by (simp add: recentAdmissions_def first_rows_def not_less)
  then have "sorted_wrt (\<lambda>x y. y \<le> x) (map a_admissionDate rows)"
    by (simp add: sorted_wrt_map)
  then show "sorted (rev (map a_admissionDate rows))"
    by (simp add: sorted_wrt_rev)
  from assms have "\<forall>x \<in> set rows. count_list rows x \<le> count_list (admissions s) x"
    by (simp add: recentAdmissions_def first_rows_def list_all_iff)
  then show "set rows \<subseteq> set (admissions s)"
    by (metis count_list_0_iff le_zero_eq subsetI)
qed

text \<open>
  C8 fails on the code. With 23 of 40 beds occupied the quotient 23/40 is rounded to a
  binary64 value below 0.575, its product with 100 is rounded to a value below 57.5, and
  \<open>Math.round\<close> gives 57; the rounding of the exact percentage 57.5 is 58. With no beds the
  rate is 0, and on the initial store every count is 0 and both lists are empty.
\<close>

theorem occupancy_rate_of_forty_beds:
  "occupiedBeds (dashboard_summary 0 1 forty_beds) = 23
   \<and> totalBeds (dashboard_summary 0 1 forty_beds) = 40
   \<and> occupancyRate (dashboard_summary 0 1 forty_beds) = 57
   \<and> specified_occupancy_rate 23 40 = 58
   \<and> binary64 (23 / 40) * 100 = 258956978573803500 / 4503599627370496
   \<and> binary64 (binary64 (23 / 40) * 100) = 8092405580431359 / 140737488355328"
proof (intro conjI)
  show "occupiedBeds (dashboard_summary 0 1 forty_beds) = 23" by code_simp
  show "totalBeds (dashboard_summary 0 1 forty_beds) = 40" by code_simp
  show "occupancyRate (dashboard_summary 0 1 forty_beds) = 57" by code_simp
  show "specified_occupancy_rate 23 40 = 58" by code_simp
  show "binary64 (23 / 40) * 100 = 258956978573803500 / 4503599627370496" by code_simp
  show "binary64 (binary64 (23 / 40) * 100) = 8092405580431359 / 140737488355328" by code_simp
qed


end
